theory Spec2Isabelle
  imports Main "HOL-Library.Word"
begin

unbundle bit_operations_syntax

section \<open>Machine model\<close>

text \<open>
  The allocators of \<^verbatim>\<open>alloc.h\<close> are embedded for a 64-bit target: \<^verbatim>\<open>size_t\<close> and
  \<^verbatim>\<open>uintptr_t\<close> are 64-bit words whose arithmetic wraps around, \<^verbatim>\<open>sizeof(void*)\<close> is 8
  and \<^verbatim>\<open>sizeof(freelist_node)\<close> is 16.

  An address is a 64-bit word. A C pointer is an address or the null pointer; the null
  pointer, which is also the one failure signal of every operation, is \<open>None\<close>. Every
  \<^verbatim>\<open>return NULL\<close> of the source is a \<open>None\<close> of the model and every other \<^verbatim>\<open>return\<close>
  is a \<open>Some\<close>. A pointer kept in memory is a 64-bit word, the null pointer being 0.

  The allocator over the platform heap (\<^verbatim>\<open>c_allocator\<close>, a pass-through to
  \<^verbatim>\<open>malloc\<close>, \<^verbatim>\<open>realloc\<close> and \<^verbatim>\<open>free\<close>) is not one of the five strategies and is
  not embedded.

  The \<^verbatim>\<open>backing\<close> field of the arena, stack, pool and freelist structs is set to
  \<^verbatim>\<open>NULL\<close> by the initialisers and never read; the records leave it out. Fields are
  prefixed with the name of their struct, since records of one theory share a name space.
\<close>

type_synonym size_t = "64 word"
type_synonym addr = "64 word"
type_synonym pointer = "addr option"

definition ptr_to_word :: "pointer \<Rightarrow> 64 word" where
  "ptr_to_word p = (case p of None \<Rightarrow> 0 | Some a \<Rightarrow> a)"

definition word_to_ptr :: "64 word \<Rightarrow> pointer" where
  "word_to_ptr w = (if w = 0 then None else Some w)"

text \<open>
  Memory is an array of bytes indexed by address. A \<^verbatim>\<open>size_t\<close> or a pointer occupies
  eight consecutive bytes, least significant byte first. \<open>memcpy\<close> is the copy of
  \<open>n\<close> bytes between regions that do not overlap (the only case C defines).
\<close>

type_synonym memory = "addr \<Rightarrow> 8 word"

definition load64 :: "memory \<Rightarrow> addr \<Rightarrow> 64 word" where
  "load64 mem a =
     ucast (mem a) OR push_bit 8 (ucast (mem (a + 1))) OR push_bit 16 (ucast (mem (a + 2)))
     OR push_bit 24 (ucast (mem (a + 3))) OR push_bit 32 (ucast (mem (a + 4)))
     OR push_bit 40 (ucast (mem (a + 5))) OR push_bit 48 (ucast (mem (a + 6)))
     OR push_bit 56 (ucast (mem (a + 7)))"

definition store64 :: "memory \<Rightarrow> addr \<Rightarrow> 64 word \<Rightarrow> memory" where
  "store64 mem a w =
     (\<lambda>x. if x - a < 8 then ucast (drop_bit (8 * unat (x - a)) w) else mem x)"

definition memcpy :: "memory \<Rightarrow> addr \<Rightarrow> addr \<Rightarrow> size_t \<Rightarrow> memory" where
  "memcpy mem dst src n = (\<lambda>x. if x - dst < n then mem (src + (x - dst)) else mem x)"

section \<open>Alignment utility\<close>

definition align_forward :: "size_t \<Rightarrow> size_t \<Rightarrow> size_t" where
  "align_forward p alignment =
     (let modulo = p AND (alignment - 1)
      in if modulo \<noteq> 0 then p + (alignment - modulo) else p)"

section \<open>Allocator interface\<close>

text \<open>
  The struct of three function pointers and a context. The C functions receive the
  handle and reach the strategy's state through \<^verbatim>\<open>self->ctx\<close>; here each entry point
  takes the context and the memory and returns them updated, and the dispatchers write
  the context back. The memory is the one memory of the program: what one allocator
  writes, every other allocator and the client read.

  The search loop of the freelist allocator follows a chain it finds in memory and need
  not end, so \<^verbatim>\<open>alloc\<close> and \<^verbatim>\<open>realloc\<close> have an optional result, \<open>None\<close> being a call
  that does not return. The release of every strategy is straight-line code.
\<close>

record 'c allocator =
  alloc :: "'c \<Rightarrow> memory \<Rightarrow> size_t \<Rightarrow> size_t \<Rightarrow> (pointer \<times> 'c \<times> memory) option"
  realloc :: "'c \<Rightarrow> memory \<Rightarrow> pointer \<Rightarrow> size_t \<Rightarrow> size_t \<Rightarrow> size_t
                \<Rightarrow> (pointer \<times> 'c \<times> memory) option"
  free :: "'c \<Rightarrow> memory \<Rightarrow> pointer \<Rightarrow> size_t \<Rightarrow> 'c \<times> memory"
  ctx :: 'c

definition alloc_alloc ::
  "'c allocator \<Rightarrow> memory \<Rightarrow> size_t \<Rightarrow> size_t \<Rightarrow> (pointer \<times> 'c allocator \<times> memory) option" where
  "alloc_alloc a mem sz alignment =
     (case alloc a (ctx a) mem sz alignment of
        None \<Rightarrow> None
      | Some (p, c, mem') \<Rightarrow> Some (p, a\<lparr>ctx := c\<rparr>, mem'))"

definition alloc_realloc ::
  "'c allocator \<Rightarrow> memory \<Rightarrow> pointer \<Rightarrow> size_t \<Rightarrow> size_t \<Rightarrow> size_t
     \<Rightarrow> (pointer \<times> 'c allocator \<times> memory) option" where
  "alloc_realloc a mem ptr old_size new_size alignment =
     (case realloc a (ctx a) mem ptr old_size new_size alignment of
        None \<Rightarrow> None
      | Some (p, c, mem') \<Rightarrow> Some (p, a\<lparr>ctx := c\<rparr>, mem'))"

definition alloc_free ::
  "'c allocator \<Rightarrow> memory \<Rightarrow> pointer \<Rightarrow> size_t \<Rightarrow> 'c allocator \<times> memory" where
  "alloc_free a mem ptr sz =
     (let (c, mem') = free a (ctx a) mem ptr sz in (a\<lparr>ctx := c\<rparr>, mem'))"

definition alloc_create ::
  "'c allocator \<Rightarrow> memory \<Rightarrow> size_t \<Rightarrow> (pointer \<times> 'c allocator \<times> memory) option" where
  "alloc_create a mem sz = alloc_alloc a mem sz 8"

definition alloc_create_array ::
  "'c allocator \<Rightarrow> memory \<Rightarrow> size_t \<Rightarrow> size_t
     \<Rightarrow> (pointer \<times> 'c allocator \<times> memory) option" where
  "alloc_create_array a mem count elem_size = alloc_alloc a mem (count * elem_size) 8"

definition alloc_destroy ::
  "'c allocator \<Rightarrow> memory \<Rightarrow> pointer \<Rightarrow> size_t \<Rightarrow> 'c allocator \<times> memory" where
  "alloc_destroy a mem ptr sz = alloc_free a mem ptr sz"

section \<open>Arena allocator\<close>

record arena_allocator =
  arena_buffer :: addr
  arena_buffer_size :: size_t
  arena_offset :: size_t

definition arena_allocator_alloc ::
  "arena_allocator \<Rightarrow> size_t \<Rightarrow> size_t \<Rightarrow> pointer \<times> arena_allocator" where
  "arena_allocator_alloc arena sz alignment =
     (let aligned_offset = align_forward (arena_offset arena) alignment
      in if aligned_offset + sz > arena_buffer_size arena then (None, arena)
         else (Some (arena_buffer arena + aligned_offset),
               arena\<lparr>arena_offset := aligned_offset + sz\<rparr>))"

definition arena_allocator_realloc ::
  "arena_allocator \<Rightarrow> memory \<Rightarrow> pointer \<Rightarrow> size_t \<Rightarrow> size_t \<Rightarrow> size_t
     \<Rightarrow> pointer \<times> arena_allocator \<times> memory" where
  "arena_allocator_realloc arena mem ptr old_size new_size alignment =
     (case ptr of
        None \<Rightarrow>
          (let (p, arena') = arena_allocator_alloc arena new_size alignment
           in (p, arena', mem))
      | Some byte_ptr \<Rightarrow>
          (let aligned_offset = align_forward (byte_ptr - arena_buffer arena) alignment
           in if byte_ptr + old_size = arena_buffer arena + arena_offset arena
                 \<and> aligned_offset + new_size \<le> arena_buffer_size arena
              then (ptr, arena\<lparr>arena_offset := aligned_offset + new_size\<rparr>, mem)
              else
                (let (new_ptr, arena') = arena_allocator_alloc arena new_size alignment
                 in case new_ptr of
                      None \<Rightarrow> (None, arena', mem)
                    | Some dst \<Rightarrow>
                        (new_ptr, arena',
                         memcpy mem dst byte_ptr
                           (if old_size < new_size then old_size else new_size)))))"

definition arena_allocator_free :: "arena_allocator \<Rightarrow> pointer \<Rightarrow> size_t \<Rightarrow> arena_allocator" where
  "arena_allocator_free arena ptr sz = arena"

definition arena_allocator_reset :: "arena_allocator \<Rightarrow> arena_allocator" where
  "arena_allocator_reset arena = arena\<lparr>arena_offset := 0\<rparr>"

definition arena_allocator_init :: "addr \<Rightarrow> size_t \<Rightarrow> arena_allocator" where
  "arena_allocator_init buffer sz =
     \<lparr>arena_buffer = buffer, arena_buffer_size = sz, arena_offset = 0\<rparr>"

definition arena_allocator_get :: "arena_allocator \<Rightarrow> arena_allocator allocator" where
  "arena_allocator_get arena =
     \<lparr>alloc = (\<lambda>a m sz alignment.
                 let (p, a') = arena_allocator_alloc a sz alignment in Some (p, a', m)),
      realloc = (\<lambda>a m ptr old_size new_size alignment.
                 Some (arena_allocator_realloc a m ptr old_size new_size alignment)),
      free = (\<lambda>a m ptr sz. (arena_allocator_free a ptr sz, m)),
      ctx = arena\<rparr>"

section \<open>Stack allocator\<close>

record stack_allocator =
  stack_buffer :: addr
  stack_buffer_size :: size_t
  stack_offset :: size_t

record stack_marker =
  marker_offset :: size_t

definition stack_allocator_alloc ::
  "stack_allocator \<Rightarrow> size_t \<Rightarrow> size_t \<Rightarrow> pointer \<times> stack_allocator" where
  "stack_allocator_alloc stack sz alignment =
     (let aligned_offset = align_forward (stack_offset stack) alignment
      in if aligned_offset + sz > stack_buffer_size stack then (None, stack)
         else (Some (stack_buffer stack + aligned_offset),
               stack\<lparr>stack_offset := aligned_offset + sz\<rparr>))"

definition stack_allocator_realloc ::
  "stack_allocator \<Rightarrow> memory \<Rightarrow> pointer \<Rightarrow> size_t \<Rightarrow> size_t \<Rightarrow> size_t
     \<Rightarrow> pointer \<times> stack_allocator \<times> memory" where
  "stack_allocator_realloc stack mem ptr old_size new_size alignment =
     (case ptr of
        None \<Rightarrow>
          (let (p, stack') = stack_allocator_alloc stack new_size alignment
           in (p, stack', mem))
      | Some byte_ptr \<Rightarrow>
          (let aligned_offset = align_forward (byte_ptr - stack_buffer stack) alignment
           in if byte_ptr + old_size = stack_buffer stack + stack_offset stack
                 \<and> aligned_offset + new_size \<le> stack_buffer_size stack
              then (ptr, stack\<lparr>stack_offset := aligned_offset + new_size\<rparr>, mem)
              else
                (let (new_ptr, stack') = stack_allocator_alloc stack new_size alignment
                 in case new_ptr of
                      None \<Rightarrow> (None, stack', mem)
                    | Some dst \<Rightarrow>
                        (new_ptr, stack',
                         memcpy mem dst byte_ptr
                           (if old_size < new_size then old_size else new_size)))))"

definition stack_allocator_free :: "stack_allocator \<Rightarrow> pointer \<Rightarrow> size_t \<Rightarrow> stack_allocator" where
  "stack_allocator_free stack ptr sz =
     (case ptr of
        None \<Rightarrow> stack
      | Some byte_ptr \<Rightarrow>
          if byte_ptr + sz = stack_buffer stack + stack_offset stack
          then stack\<lparr>stack_offset := byte_ptr - stack_buffer stack\<rparr>
          else stack)"

definition stack_allocator_init :: "addr \<Rightarrow> size_t \<Rightarrow> stack_allocator" where
  "stack_allocator_init buffer sz =
     \<lparr>stack_buffer = buffer, stack_buffer_size = sz, stack_offset = 0\<rparr>"

definition stack_allocator_mark :: "stack_allocator \<Rightarrow> stack_marker" where
  "stack_allocator_mark stack = \<lparr>marker_offset = stack_offset stack\<rparr>"

definition stack_allocator_restore :: "stack_allocator \<Rightarrow> stack_marker \<Rightarrow> stack_allocator" where
  "stack_allocator_restore stack marker = stack\<lparr>stack_offset := marker_offset marker\<rparr>"

definition stack_allocator_reset :: "stack_allocator \<Rightarrow> stack_allocator" where
  "stack_allocator_reset stack = stack\<lparr>stack_offset := 0\<rparr>"

definition stack_allocator_get :: "stack_allocator \<Rightarrow> stack_allocator allocator" where
  "stack_allocator_get stack =
     \<lparr>alloc = (\<lambda>s m sz alignment.
                 let (p, s') = stack_allocator_alloc s sz alignment in Some (p, s', m)),
      realloc = (\<lambda>s m ptr old_size new_size alignment.
                 Some (stack_allocator_realloc s m ptr old_size new_size alignment)),
      free = (\<lambda>s m ptr sz. (stack_allocator_free s ptr sz, m)),
      ctx = stack\<rparr>"

section \<open>Pool allocator\<close>

text \<open>
  The free chain is threaded through the chunks: the first eight bytes of a free chunk
  hold the address of the next free chunk, or 0 at the end of the chain.
\<close>

record pool_allocator =
  pool_buffer :: addr
  pool_chunk_size :: size_t
  pool_chunk_count :: size_t
  pool_free_list :: pointer

definition pool_allocator_alloc ::
  "pool_allocator \<Rightarrow> memory \<Rightarrow> size_t \<Rightarrow> size_t \<Rightarrow> pointer \<times> pool_allocator" where
  "pool_allocator_alloc pool mem sz alignment =
     (if sz > pool_chunk_size pool then (None, pool)
      else case pool_free_list pool of
             None \<Rightarrow> (None, pool)
           | Some head \<Rightarrow>
               (Some head, pool\<lparr>pool_free_list := word_to_ptr (load64 mem head)\<rparr>))"

definition pool_allocator_free ::
  "pool_allocator \<Rightarrow> memory \<Rightarrow> pointer \<Rightarrow> size_t \<Rightarrow> pool_allocator \<times> memory" where
  "pool_allocator_free pool mem ptr sz =
     (case ptr of
        None \<Rightarrow> (pool, mem)
      | Some free_node \<Rightarrow>
          (pool\<lparr>pool_free_list := Some free_node\<rparr>,
           store64 mem free_node (ptr_to_word (pool_free_list pool))))"

definition pool_allocator_realloc ::
  "pool_allocator \<Rightarrow> memory \<Rightarrow> pointer \<Rightarrow> size_t \<Rightarrow> size_t \<Rightarrow> size_t
     \<Rightarrow> pointer \<times> pool_allocator \<times> memory" where
  "pool_allocator_realloc pool mem ptr old_size new_size alignment =
     (if new_size \<le> pool_chunk_size pool \<and> old_size \<le> pool_chunk_size pool
      then (ptr, pool, mem)
      else
        (let (new_ptr, pool') = pool_allocator_alloc pool mem new_size alignment
         in case (new_ptr, ptr) of
              (Some dst, Some src) \<Rightarrow>
                (let mem' = memcpy mem dst src
                              (if old_size < new_size then old_size else new_size);
                     (pool'', mem'') = pool_allocator_free pool' mem' ptr old_size
                 in (new_ptr, pool'', mem''))
            | _ \<Rightarrow> (new_ptr, pool', mem)))"

function pool_init_loop :: "pool_allocator \<Rightarrow> memory \<Rightarrow> size_t \<Rightarrow> pool_allocator \<times> memory" where
  "pool_init_loop pool mem i =
     (if i < pool_chunk_count pool
      then
        (let chunk = pool_buffer pool + (pool_chunk_count pool - 1 - i) * pool_chunk_size pool
         in pool_init_loop (pool\<lparr>pool_free_list := Some chunk\<rparr>)
              (store64 mem chunk (ptr_to_word (pool_free_list pool))) (i + 1))
      else (pool, mem))"
  by pat_completeness auto
termination
proof (relation "measure (\<lambda>(pool, mem, i). unat (pool_chunk_count pool) - unat i)")
  show "wf (measure (\<lambda>(pool, mem, i). unat (pool_chunk_count pool) - unat i))"
    by simp
next
  fix pool :: pool_allocator and mem :: memory and i :: size_t and chunk :: addr
  assume less: "i < pool_chunk_count pool"
  then have below: "unat i < unat (pool_chunk_count pool)"
    by (simp add: word_less_nat_alt)
  moreover have "unat (pool_chunk_count pool) < 2 ^ 64"
    using unsigned_less [of "pool_chunk_count pool"] by simp
  ultimately have "unat i + unat (1 :: size_t) < 2 ^ LENGTH(64)"
    by simp
  then have "unat (i + 1) = unat i + unat (1 :: size_t)"
    by (simp only: unat_add_lem)
  with below show
    "((pool\<lparr>pool_free_list := Some chunk\<rparr>,
       store64 mem chunk (ptr_to_word (pool_free_list pool)), i + 1), (pool, mem, i))
       \<in> measure (\<lambda>(pool, mem, i). unat (pool_chunk_count pool) - unat i)"
    by simp
qed

declare pool_init_loop.simps [simp del]

definition pool_allocator_init ::
  "addr \<Rightarrow> size_t \<Rightarrow> size_t \<Rightarrow> memory \<Rightarrow> pool_allocator \<times> memory" where
  "pool_allocator_init buffer chunk_size chunk_count mem =
     pool_init_loop
       \<lparr>pool_buffer = buffer, pool_chunk_size = chunk_size,
        pool_chunk_count = chunk_count, pool_free_list = None\<rparr> mem 0"

definition pool_allocator_get :: "pool_allocator \<Rightarrow> pool_allocator allocator" where
  "pool_allocator_get pool =
     \<lparr>alloc = (\<lambda>p m sz alignment.
                 let (r, p') = pool_allocator_alloc p m sz alignment in Some (r, p', m)),
      realloc = (\<lambda>p m ptr old_size new_size alignment.
                 Some (pool_allocator_realloc p m ptr old_size new_size alignment)),
      free = pool_allocator_free,
      ctx = pool\<rparr>"

section \<open>Scratch allocator\<close>

text \<open>
  The scratch allocator decorates a backing allocator, held here by value with its
  context. The array that \<^verbatim>\<open>allocations\<close> points to is memory obtained from the
  backing allocator: \<^verbatim>\<open>allocations[i]\<close> is the pointer in the eight bytes at
  \<open>allocations_cell allocations i\<close>, read from and written to the memory that the
  backing allocator reads and writes as well. The null pointer is the address 0.
\<close>

record 'c scratch_allocator =
  scratch_backing :: "'c allocator"
  scratch_allocations :: pointer
  scratch_allocation_count :: size_t
  scratch_allocation_capacity :: size_t

definition allocations_cell :: "pointer \<Rightarrow> size_t \<Rightarrow> addr" where
  "allocations_cell allocations i = ptr_to_word allocations + i * 8"

definition scratch_allocator_alloc ::
  "'c scratch_allocator \<Rightarrow> memory \<Rightarrow> size_t \<Rightarrow> size_t
     \<Rightarrow> (pointer \<times> 'c scratch_allocator \<times> memory) option" where
  "scratch_allocator_alloc scratch mem sz alignment =
     (case alloc_alloc (scratch_backing scratch) mem sz alignment of
        None \<Rightarrow> None
      | Some (ptr, backing1, mem1) \<Rightarrow>
          (case ptr of
             None \<Rightarrow> Some (None, scratch\<lparr>scratch_backing := backing1\<rparr>, mem1)
           | Some _ \<Rightarrow>
               if scratch_allocation_count scratch \<ge> scratch_allocation_capacity scratch
               then
                 (let new_capacity =
                        (if scratch_allocation_capacity scratch = 0 then 8
                         else scratch_allocation_capacity scratch * 2)
                  in case alloc_realloc backing1 mem1 (scratch_allocations scratch)
                            (scratch_allocation_capacity scratch * 8) (new_capacity * 8) 8 of
                       None \<Rightarrow> None
                     | Some (new_allocations, backing2, mem2) \<Rightarrow>
                         (case new_allocations of
                            None \<Rightarrow>
                              (let (backing3, mem3) = alloc_free backing2 mem2 ptr sz
                               in Some (None, scratch\<lparr>scratch_backing := backing3\<rparr>, mem3))
                          | Some _ \<Rightarrow>
                              Some (ptr,
                                    scratch
                                      \<lparr>scratch_backing := backing2,
                                       scratch_allocations := new_allocations,
                                       scratch_allocation_count :=
                                         scratch_allocation_count scratch + 1,
                                       scratch_allocation_capacity := new_capacity\<rparr>,
                                    store64 mem2
                                      (allocations_cell new_allocations
                                         (scratch_allocation_count scratch))
                                      (ptr_to_word ptr))))
               else
                 Some (ptr,
                       scratch
                         \<lparr>scratch_backing := backing1,
                          scratch_allocation_count := scratch_allocation_count scratch + 1\<rparr>,
                       store64 mem1
                         (allocations_cell (scratch_allocations scratch)
                            (scratch_allocation_count scratch))
                         (ptr_to_word ptr))))"

function scratch_replace_loop ::
  "memory \<Rightarrow> pointer \<Rightarrow> size_t \<Rightarrow> pointer \<Rightarrow> pointer \<Rightarrow> size_t \<Rightarrow> memory" where
  "scratch_replace_loop mem allocations count ptr new_ptr i =
     (if i < count
      then if load64 mem (allocations_cell allocations i) = ptr_to_word ptr
           then store64 mem (allocations_cell allocations i) (ptr_to_word new_ptr)
           else scratch_replace_loop mem allocations count ptr new_ptr (i + 1)
      else mem)"
  by pat_completeness auto
termination
proof (relation "measure (\<lambda>(mem, allocations, count, ptr, new_ptr, i). unat count - unat i)")
  show "wf (measure (\<lambda>(mem, allocations, count, ptr, new_ptr, i). unat count - unat i))"
    by simp
next
  fix mem :: memory and count i :: size_t and allocations ptr new_ptr :: pointer
  assume "i < count"
  then have below: "unat i < unat count"
    by (simp add: word_less_nat_alt)
  moreover have "unat count < 2 ^ 64"
    using unsigned_less [of count] by simp
  ultimately have "unat i + unat (1 :: size_t) < 2 ^ LENGTH(64)"
    by simp
  then have "unat (i + 1) = unat i + unat (1 :: size_t)"
    by (simp only: unat_add_lem)
  with below show
    "((mem, allocations, count, ptr, new_ptr, i + 1), (mem, allocations, count, ptr, new_ptr, i))
       \<in> measure (\<lambda>(mem, allocations, count, ptr, new_ptr, i). unat count - unat i)"
    by simp
qed

declare scratch_replace_loop.simps [simp del]

definition scratch_allocator_realloc ::
  "'c scratch_allocator \<Rightarrow> memory \<Rightarrow> pointer \<Rightarrow> size_t \<Rightarrow> size_t \<Rightarrow> size_t
     \<Rightarrow> (pointer \<times> 'c scratch_allocator \<times> memory) option" where
  "scratch_allocator_realloc scratch mem ptr old_size new_size alignment =
     (case ptr of
        None \<Rightarrow> scratch_allocator_alloc scratch mem new_size alignment
      | Some _ \<Rightarrow>
          (case alloc_realloc (scratch_backing scratch) mem ptr old_size new_size alignment of
             None \<Rightarrow> None
           | Some (new_ptr, backing1, mem1) \<Rightarrow>
               (case new_ptr of
                  None \<Rightarrow> Some (None, scratch\<lparr>scratch_backing := backing1\<rparr>, mem1)
                | Some _ \<Rightarrow>
                    Some (new_ptr, scratch\<lparr>scratch_backing := backing1\<rparr>,
                          scratch_replace_loop mem1 (scratch_allocations scratch)
                            (scratch_allocation_count scratch) ptr new_ptr 0))))"

definition scratch_allocator_free ::
  "'c scratch_allocator \<Rightarrow> memory \<Rightarrow> pointer \<Rightarrow> size_t \<Rightarrow> 'c scratch_allocator \<times> memory" where
  "scratch_allocator_free scratch mem ptr sz = (scratch, mem)"

definition scratch_allocator_init :: "'c allocator \<Rightarrow> 'c scratch_allocator" where
  "scratch_allocator_init backing =
     \<lparr>scratch_backing = backing, scratch_allocations = None,
      scratch_allocation_count = 0, scratch_allocation_capacity = 0\<rparr>"

text \<open>
  The loop of \<^verbatim>\<open>scratch_allocator_reset\<close> reads \<^verbatim>\<open>allocations[i]\<close> from the memory as
  the releases before it have left it.
\<close>

function scratch_reset_loop ::
  "'c allocator \<Rightarrow> memory \<Rightarrow> pointer \<Rightarrow> size_t \<Rightarrow> size_t \<Rightarrow> 'c allocator \<times> memory" where
  "scratch_reset_loop backing mem allocations count i =
     (if i < count
      then
        (case alloc_free backing mem
                (word_to_ptr (load64 mem (allocations_cell allocations i))) 0 of
           (backing', mem') \<Rightarrow> scratch_reset_loop backing' mem' allocations count (i + 1))
      else (backing, mem))"
  by pat_completeness auto
termination
proof (relation "measure (\<lambda>(backing, mem, allocations, count, i). unat count - unat i)")
  show "wf (measure (\<lambda>(backing, mem, allocations, count, i). unat count - unat i))"
    by simp
next
  fix backing backing' :: "'c allocator" and mem mem' :: memory and allocations :: pointer
    and count i :: size_t
  assume "i < count"
  then have below: "unat i < unat count"
    by (simp add: word_less_nat_alt)
  moreover have "unat count < 2 ^ 64"
    using unsigned_less [of count] by simp
  ultimately have "unat i + unat (1 :: size_t) < 2 ^ LENGTH(64)"
    by simp
  then have "unat (i + 1) = unat i + unat (1 :: size_t)"
    by (simp only: unat_add_lem)
  with below show
    "((backing', mem', allocations, count, i + 1), (backing, mem, allocations, count, i))
       \<in> measure (\<lambda>(backing, mem, allocations, count, i). unat count - unat i)"
    by simp
qed

declare scratch_reset_loop.simps [simp del]

definition scratch_allocator_reset ::
  "'c scratch_allocator \<Rightarrow> memory \<Rightarrow> 'c scratch_allocator \<times> memory" where
  "scratch_allocator_reset scratch mem =
     (let (backing', mem') =
            scratch_reset_loop (scratch_backing scratch) mem (scratch_allocations scratch)
              (scratch_allocation_count scratch) 0
      in (scratch\<lparr>scratch_backing := backing', scratch_allocation_count := 0\<rparr>, mem'))"

definition scratch_allocator_destroy ::
  "'c scratch_allocator \<Rightarrow> memory \<Rightarrow> 'c scratch_allocator \<times> memory" where
  "scratch_allocator_destroy scratch mem =
     (let (scratch1, mem1) = scratch_allocator_reset scratch mem;
          (scratch2, mem2) =
            (case scratch_allocations scratch1 of
               None \<Rightarrow> (scratch1, mem1)
             | Some _ \<Rightarrow>
                 (let (backing', mem') =
                        alloc_free (scratch_backing scratch1) mem1 (scratch_allocations scratch1)
                          (scratch_allocation_capacity scratch1 * 8)
                  in (scratch1\<lparr>scratch_backing := backing'\<rparr>, mem')))
      in (scratch2\<lparr>scratch_allocations := None, scratch_allocation_capacity := 0\<rparr>, mem2))"

definition scratch_allocator_get ::
  "'c scratch_allocator \<Rightarrow> 'c scratch_allocator allocator" where
  "scratch_allocator_get scratch =
     \<lparr>alloc = scratch_allocator_alloc, realloc = scratch_allocator_realloc,
      free = scratch_allocator_free, ctx = scratch\<rparr>"

section \<open>Freelist allocator\<close>

text \<open>
  A free block starts with its header, a \<^verbatim>\<open>freelist_node\<close>: the size of the block in
  its first eight bytes and the address of the next free block (0 at the end of the
  chain) in the eight bytes after them. \<^verbatim>\<open>prev_ptr\<close> of the search loop points either
  to the \<^verbatim>\<open>free_list\<close> field of the allocator or to the \<^verbatim>\<open>next\<close> field of a block.
  The loop follows the chain as it finds it in memory, so it returns nothing (\<open>None\<close>
  at the outer level) on a chain that runs in a circle through blocks too small.
\<close>

record freelist_allocator =
  freelist_buffer :: addr
  freelist_buffer_size :: size_t
  freelist_free_list :: pointer

definition node_size :: "memory \<Rightarrow> addr \<Rightarrow> size_t" where
  "node_size mem node = load64 mem node"

definition node_next :: "memory \<Rightarrow> addr \<Rightarrow> pointer" where
  "node_next mem node = word_to_ptr (load64 mem (node + 8))"

datatype link = Head_link | Next_link addr

definition store_link ::
  "freelist_allocator \<Rightarrow> memory \<Rightarrow> link \<Rightarrow> pointer \<Rightarrow> freelist_allocator \<times> memory" where
  "store_link freelist mem prev_ptr p =
     (case prev_ptr of
        Head_link \<Rightarrow> (freelist\<lparr>freelist_free_list := p\<rparr>, mem)
      | Next_link prev \<Rightarrow> (freelist, store64 mem (prev + 8) (ptr_to_word p)))"

partial_function (option) freelist_alloc_loop ::
  "freelist_allocator \<Rightarrow> memory \<Rightarrow> size_t \<Rightarrow> size_t \<Rightarrow> size_t \<Rightarrow> link \<Rightarrow> pointer
     \<Rightarrow> (pointer \<times> freelist_allocator \<times> memory) option" where
  "freelist_alloc_loop freelist mem sz alignment total_size prev_ptr node =
     (case node of
        None \<Rightarrow> Some (None, freelist, mem)
      | Some a \<Rightarrow>
          if node_size mem a \<ge> total_size
          then
            (let aligned_addr = align_forward a alignment;
                 padding = aligned_addr - a
             in if node_size mem a \<ge> sz + padding
                then
                  (let (freelist1, mem1) = store_link freelist mem prev_ptr (node_next mem a)
                   in if node_size mem1 a > total_size + 16
                      then
                        (let new_node = a + sz + padding;
                             mem2 = store64 mem1 new_node (node_size mem1 a - (sz + padding));
                             mem3 = store64 mem2 (new_node + 8)
                                      (ptr_to_word (freelist_free_list freelist1))
                         in Some (Some aligned_addr,
                                  freelist1\<lparr>freelist_free_list := Some new_node\<rparr>, mem3))
                      else Some (Some aligned_addr, freelist1, mem1))
                else freelist_alloc_loop freelist mem sz alignment total_size
                       (Next_link a) (node_next mem a))
          else freelist_alloc_loop freelist mem sz alignment total_size
                 (Next_link a) (node_next mem a))"

definition freelist_allocator_alloc ::
  "freelist_allocator \<Rightarrow> memory \<Rightarrow> size_t \<Rightarrow> size_t
     \<Rightarrow> (pointer \<times> freelist_allocator \<times> memory) option" where
  "freelist_allocator_alloc freelist mem sz alignment =
     freelist_alloc_loop freelist mem sz alignment (sz + alignment - 1)
       Head_link (freelist_free_list freelist)"

definition freelist_allocator_free ::
  "freelist_allocator \<Rightarrow> memory \<Rightarrow> pointer \<Rightarrow> size_t \<Rightarrow> freelist_allocator \<times> memory" where
  "freelist_allocator_free freelist mem ptr sz =
     (case ptr of
        None \<Rightarrow> (freelist, mem)
      | Some node \<Rightarrow>
          (let mem1 = store64 mem node sz;
               mem2 = store64 mem1 (node + 8) (ptr_to_word (freelist_free_list freelist))
           in (freelist\<lparr>freelist_free_list := Some node\<rparr>, mem2)))"

definition freelist_allocator_realloc ::
  "freelist_allocator \<Rightarrow> memory \<Rightarrow> pointer \<Rightarrow> size_t \<Rightarrow> size_t \<Rightarrow> size_t
     \<Rightarrow> (pointer \<times> freelist_allocator \<times> memory) option" where
  "freelist_allocator_realloc freelist mem ptr old_size new_size alignment =
     (case ptr of
        None \<Rightarrow> freelist_allocator_alloc freelist mem new_size alignment
      | Some src \<Rightarrow>
          (case freelist_allocator_alloc freelist mem new_size alignment of
             None \<Rightarrow> None
           | Some (new_ptr, freelist1, mem1) \<Rightarrow>
               (case new_ptr of
                  None \<Rightarrow> Some (None, freelist1, mem1)
                | Some dst \<Rightarrow>
                    (let mem2 = memcpy mem1 dst src
                                  (if old_size < new_size then old_size else new_size);
                         (freelist3, mem3) = freelist_allocator_free freelist1 mem2 ptr old_size
                     in Some (new_ptr, freelist3, mem3)))))"

definition freelist_allocator_init ::
  "addr \<Rightarrow> size_t \<Rightarrow> memory \<Rightarrow> freelist_allocator \<times> memory" where
  "freelist_allocator_init buffer sz mem =
     (let mem1 = store64 mem buffer sz;
          mem2 = store64 mem1 (buffer + 8) 0
      in (\<lparr>freelist_buffer = buffer, freelist_buffer_size = sz,
           freelist_free_list = Some buffer\<rparr>, mem2))"

definition freelist_allocator_get :: "freelist_allocator \<Rightarrow> freelist_allocator allocator" where
  "freelist_allocator_get freelist =
     \<lparr>alloc = freelist_allocator_alloc, realloc = freelist_allocator_realloc,
      free = freelist_allocator_free, ctx = freelist\<rparr>"

section \<open>Sequences of calls\<close>

text \<open>
  The calls a client can make on an arena, and a run of such calls from left to right.
  They are the vocabulary of the statements about every sequence of calls.
\<close>

datatype arena_call =
  Arena_alloc size_t size_t
  | Arena_realloc pointer size_t size_t size_t
  | Arena_free pointer size_t
  | Arena_reset

fun arena_step :: "arena_allocator \<times> memory \<Rightarrow> arena_call \<Rightarrow> arena_allocator \<times> memory" where
  "arena_step (arena, mem) (Arena_alloc sz alignment) =
     (snd (arena_allocator_alloc arena sz alignment), mem)"
| "arena_step (arena, mem) (Arena_realloc ptr old_size new_size alignment) =
     snd (arena_allocator_realloc arena mem ptr old_size new_size alignment)"
| "arena_step (arena, mem) (Arena_free ptr sz) = (arena_allocator_free arena ptr sz, mem)"
| "arena_step (arena, mem) Arena_reset = (arena_allocator_reset arena, mem)"

definition arena_run ::
  "arena_allocator \<times> memory \<Rightarrow> arena_call list \<Rightarrow> arena_allocator \<times> memory" where
  "arena_run = foldl arena_step"

definition arena_invariant :: "arena_allocator \<Rightarrow> bool" where
  "arena_invariant arena = (0 \<le> arena_offset arena \<and> arena_offset arena \<le> arena_buffer_size arena)"

text \<open>A run of allocations on a stack, each given by its size and alignment.\<close>

definition stack_allocs :: "stack_allocator \<Rightarrow> (size_t \<times> size_t) list \<Rightarrow> stack_allocator" where
  "stack_allocs = foldl (\<lambda>stack (sz, alignment). snd (stack_allocator_alloc stack sz alignment))"

text \<open>
  The free chain of a pool as a list: \<open>pool_chain mem p ns\<close> holds when following the
  links in \<open>mem\<close> from \<open>p\<close> visits exactly the chunks \<open>ns\<close>, in this order, and then
  reaches the null pointer. Two link cells are \<open>apart\<close> when they share no byte.
\<close>

fun pool_chain :: "memory \<Rightarrow> pointer \<Rightarrow> addr list \<Rightarrow> bool" where
  "pool_chain mem p [] = (p = None)"
| "pool_chain mem p (n # ns) =
     (p = Some n \<and> n \<noteq> 0 \<and> pool_chain mem (word_to_ptr (load64 mem n)) ns)"

definition apart :: "addr \<Rightarrow> addr \<Rightarrow> bool" where
  "apart a b = (8 \<le> b - a \<and> b - a \<le> - 8)"

text \<open>
  The chunks of a pool over \<open>buffer\<close>, and the layout a pool needs: a buffer that is
  not null and holds \<open>chunk_count\<close> chunks within the address space, each with room for
  a link. \<open>pool_reachable buffer chunk_size chunk_count\<close> are the states a client can
  reach from the initialiser, together with the chunks it holds: by an allocation, by the
  release of a chunk it holds, and by writing to memory elsewhere than in the link cells
  of the chunks it does not hold.
\<close>

definition pool_chunk :: "addr \<Rightarrow> size_t \<Rightarrow> nat \<Rightarrow> addr" where
  "pool_chunk buffer chunk_size k = buffer + of_nat k * chunk_size"

definition pool_layout_ok :: "addr \<Rightarrow> size_t \<Rightarrow> size_t \<Rightarrow> bool" where
  "pool_layout_ok buffer chunk_size chunk_count =
     (buffer \<noteq> 0 \<and> 8 \<le> unat chunk_size
      \<and> unat buffer + unat chunk_count * unat chunk_size \<le> 2 ^ 64)"

inductive pool_reachable ::
  "addr \<Rightarrow> size_t \<Rightarrow> size_t \<Rightarrow> pool_allocator \<times> memory \<times> addr set \<Rightarrow> bool"
  for buffer :: addr and chunk_size :: size_t and chunk_count :: size_t where
  reach_init:
    "pool_allocator_init buffer chunk_size chunk_count mem0 = (pool, mem)
     \<Longrightarrow> pool_reachable buffer chunk_size chunk_count (pool, mem, {})"
| reach_alloc:
    "pool_reachable buffer chunk_size chunk_count (pool, mem, live)
     \<Longrightarrow> pool_allocator_alloc pool mem sz alignment = (Some a, pool')
     \<Longrightarrow> pool_reachable buffer chunk_size chunk_count (pool', mem, insert a live)"
| reach_free:
    "pool_reachable buffer chunk_size chunk_count (pool, mem, live)
     \<Longrightarrow> a \<in> live
     \<Longrightarrow> pool_allocator_free pool mem (Some a) sz = (pool', mem')
     \<Longrightarrow> pool_reachable buffer chunk_size chunk_count (pool', mem', live - {a})"
| reach_write:
    "pool_reachable buffer chunk_size chunk_count (pool, mem, live)
     \<Longrightarrow> (\<forall>k < unat chunk_count. \<forall>j < 8.
            pool_chunk buffer chunk_size k \<notin> live
            \<longrightarrow> mem' (pool_chunk buffer chunk_size k + of_nat j)
                  = mem (pool_chunk buffer chunk_size k + of_nat j))
     \<Longrightarrow> pool_reachable buffer chunk_size chunk_count (pool, mem', live)"

definition pool_invariant ::
  "addr \<Rightarrow> size_t \<Rightarrow> size_t \<Rightarrow> pool_allocator \<times> memory \<times> addr set \<Rightarrow> bool" where
  "pool_invariant buffer chunk_size chunk_count state =
     (case state of (pool, mem, live) \<Rightarrow>
        pool_buffer pool = buffer \<and> pool_chunk_size pool = chunk_size
        \<and> pool_chunk_count pool = chunk_count
        \<and> (\<exists>ns. pool_chain mem (pool_free_list pool) ns \<and> distinct ns
                 \<and> set ns \<inter> live = {}
                 \<and> set ns \<union> live
                     \<subseteq> pool_chunk buffer chunk_size ` {k. k < unat chunk_count}))"

text \<open>
  The tracking sequence of a scratch allocator as the memory holds it: the pointers in
  the cells of the array below \<^verbatim>\<open>allocation_count\<close>, in the order of the cells.
  \<open>release_all\<close> is the release, with size 0, of a list of pointers one after the other.
\<close>

definition tracked_cells :: "pointer \<Rightarrow> size_t \<Rightarrow> memory \<Rightarrow> pointer list" where
  "tracked_cells allocations count mem =
     map (\<lambda>i. word_to_ptr (load64 mem (allocations_cell allocations (of_nat i))))
       [0..<unat count]"

definition scratch_tracked :: "'c scratch_allocator \<Rightarrow> memory \<Rightarrow> pointer list" where
  "scratch_tracked scratch mem =
     tracked_cells (scratch_allocations scratch) (scratch_allocation_count scratch) mem"

definition release_all ::
  "'c allocator \<times> memory \<Rightarrow> pointer list \<Rightarrow> 'c allocator \<times> memory" where
  "release_all = foldl (\<lambda>(backing, mem) p. alloc_free backing mem p 0)"

text \<open>
  The free chain of a freelist allocator as a list of block addresses, and the test the
  search loop applies to a block: the two comparisons of \<^verbatim>\<open>freelist_allocator_alloc\<close>
  that a block must pass to be taken, the first against
  \<^verbatim>\<open>total_size = size + alignment - 1\<close>, the second against the size plus the padding
  of this block.
\<close>

fun freelist_chain :: "memory \<Rightarrow> pointer \<Rightarrow> addr list \<Rightarrow> bool" where
  "freelist_chain mem p [] = (p = None)"
| "freelist_chain mem p (n # ns) =
     (p = Some n \<and> n \<noteq> 0 \<and> freelist_chain mem (node_next mem n) ns)"

text \<open>
  \<open>links_apart ns\<close>: the \<^verbatim>\<open>next\<close> fields of the blocks \<open>ns\<close> share no byte with one
  another (so the blocks are distinct).
\<close>

fun links_apart :: "addr list \<Rightarrow> bool" where
  "links_apart [] = True"
| "links_apart (n # ns) = ((\<forall>m \<in> set ns. apart (n + 8) (m + 8)) \<and> links_apart ns)"

definition freelist_takes :: "memory \<Rightarrow> size_t \<Rightarrow> size_t \<Rightarrow> addr \<Rightarrow> bool" where
  "freelist_takes mem sz alignment a =
     (node_size mem a \<ge> sz + alignment - 1
      \<and> node_size mem a \<ge> sz + (align_forward a alignment - a))"

section \<open>Memory\<close>

lemma store64_bytes:
  "store64 mem a w a = ucast w"
  "store64 mem a w (a + 1) = ucast (drop_bit 8 w)"
  "store64 mem a w (a + 2) = ucast (drop_bit 16 w)"
  "store64 mem a w (a + 3) = ucast (drop_bit 24 w)"
  "store64 mem a w (a + 4) = ucast (drop_bit 32 w)"
  "store64 mem a w (a + 5) = ucast (drop_bit 40 w)"
  "store64 mem a w (a + 6) = ucast (drop_bit 48 w)"
  "store64 mem a w (a + 7) = ucast (drop_bit 56 w)"
  by (simp_all add: store64_def)

lemma bit_byte_at:
  fixes w :: "64 word"
  shows "bit (push_bit k (ucast (ucast (drop_bit k w) :: 8 word)) :: 64 word) n
           = (k \<le> n \<and> n < k + 8 \<and> n < 64 \<and> bit w n)"
  by (auto simp add: bit_push_bit_iff bit_ucast_iff bit_drop_bit_eq)

lemma bit_byte_0:
  fixes w :: "64 word"
  shows "bit (ucast (ucast w :: 8 word) :: 64 word) n = (n < 8 \<and> bit w n)"
  by (auto simp add: bit_ucast_iff)

lemma load64_store64_same: "load64 (store64 mem a w) a = w"
  unfolding load64_def store64_bytes
  apply (rule bit_word_eqI)
  apply (simp only: bit_or_iff bit_byte_at bit_byte_0)
  subgoal for n by (cases "bit w n") (simp_all, arith)
  done

lemma store64_outside: "8 \<le> x - a \<Longrightarrow> store64 mem a w x = mem x"
  by (simp add: store64_def leD)

lemma far_add:
  fixes d :: "64 word"
  assumes "8 \<le> d" "d \<le> - 8" "i < 8"
  shows "8 \<le> d + i"
proof -
  have a: "8 \<le> unat d" using assms(1) by (simp add: word_le_nat_alt)
  have b: "unat d \<le> 18446744073709551608" using assms(2) by (simp add: word_le_nat_alt)
  have c: "unat i < 8" using assms(3) by (simp add: word_less_nat_alt)
  have "unat (d + i) = unat d + unat i" using b c by (simp add: unat_add_lem [THEN iffD1])
  then show ?thesis using a by (simp add: word_le_nat_alt)
qed

lemma apart_offsets:
  assumes "apart a b"
  shows "8 \<le> b - a" "8 \<le> b + 1 - a" "8 \<le> b + 2 - a" "8 \<le> b + 3 - a" "8 \<le> b + 4 - a"
     "8 \<le> b + 5 - a" "8 \<le> b + 6 - a" "8 \<le> b + 7 - a"
  using assms far_add [of "b - a" 1] far_add [of "b - a" 2] far_add [of "b - a" 3]
    far_add [of "b - a" 4] far_add [of "b - a" 5] far_add [of "b - a" 6] far_add [of "b - a" 7]
  unfolding apart_def by (simp_all add: add_diff_eq diff_add_eq)

lemma load64_store64_apart: "apart a b \<Longrightarrow> load64 (store64 mem a w) b = load64 mem b"
  unfolding load64_def by (simp add: store64_outside apart_offsets)

lemma word_to_ptr_inverse: "p \<noteq> Some 0 \<Longrightarrow> word_to_ptr (ptr_to_word p) = p"
  by (cases p) (simp_all add: word_to_ptr_def ptr_to_word_def)

section \<open>Arena: allocation and the offset invariant\<close>

text \<open>
  \<open>align_forward\<close> with a power-of-two alignment returns the least multiple of the
  alignment that is not below its argument, as long as that multiple is below \<open>2 ^ 64\<close>.
\<close>

lemma align_forward_pow2:
  fixes p :: size_t
  assumes k: "k < 64" and room: "unat p + 2 ^ k \<le> 2 ^ 64"
  shows "2 ^ k dvd unat (align_forward p (2 ^ k))
         \<and> unat p \<le> unat (align_forward p (2 ^ k))
         \<and> unat (align_forward p (2 ^ k)) < unat p + 2 ^ k"
proof -
  define m where "m = unat p mod 2 ^ k"
  have "(2 :: nat) ^ k < 2 ^ 64"
    using power_strict_increasing [OF k, of "2 :: nat"] by simp
  then have pow: "unat (2 ^ k :: size_t) = 2 ^ k"
    using unat_of_nat [where 'a = 64, of "2 ^ k"] by simp
  have mask: "p AND (2 ^ k - 1) = take_bit k p"
    by (simp add: take_bit_eq_mask mask_eq_exp_minus_1)
  have m: "unat (take_bit k p) = m"
    unfolding m_def by (subst unsigned_take_bit_eq, simp add: take_bit_eq_mod)
  have m_less: "m < 2 ^ k"
    by (simp add: m_def)
  show ?thesis
  proof (cases "m = 0")
    case True
    then have "take_bit k p = 0"
      using m by (simp add: unat_eq_0)
    then have "align_forward p (2 ^ k) = p"
      by (simp add: align_forward_def mask)
    moreover have "2 ^ k dvd unat p"
      using True by (simp add: m_def mod_eq_0_iff_dvd)
    ultimately show ?thesis
      by simp
  next
    case False
    then have nz: "take_bit k p \<noteq> 0"
      using m by auto
    have le: "take_bit k p \<le> (2 ^ k :: size_t)"
      using m m_less pow by (simp add: word_le_nat_alt)
    have gap: "unat ((2 ^ k :: size_t) - take_bit k p) = 2 ^ k - m"
      using le m pow by (simp add: unat_sub)
    have "unat p + unat ((2 ^ k :: size_t) - take_bit k p) < 2 ^ LENGTH(64)"
      using gap room False m_less by simp
    then have "unat (p + (2 ^ k - take_bit k p))
                 = unat p + unat ((2 ^ k :: size_t) - take_bit k p)"
      by (simp only: unat_add_lem)
    then have "unat (p + (2 ^ k - take_bit k p)) = unat p + (2 ^ k - m)"
      using gap by simp
    then have aligned: "unat (align_forward p (2 ^ k)) = unat p + (2 ^ k - m)"
      using nz by (simp add: align_forward_def mask)
    define q where "q = unat p div 2 ^ k"
    have "unat p = 2 ^ k * q + m"
      by (simp add: q_def m_def)
    then have "unat p + (2 ^ k - m) = 2 ^ k * (q + 1)"
      using m_less by simp
    then have "2 ^ k dvd unat p + (2 ^ k - m)"
      by simp
    then show ?thesis
      using aligned False m_less by simp
  qed
qed

lemma arena_alloc_when_no_overflow:
  assumes "unat (align_forward (arena_offset arena) alignment) + unat sz < 2 ^ 64"
  shows "arena_allocator_alloc arena sz alignment =
     (if unat (align_forward (arena_offset arena) alignment) + unat sz > unat (arena_buffer_size arena)
      then (None, arena)
      else (Some (arena_buffer arena + align_forward (arena_offset arena) alignment),
            arena\<lparr>arena_offset := align_forward (arena_offset arena) alignment + sz\<rparr>))"
proof -
  have "unat (align_forward (arena_offset arena) alignment + sz)
          = unat (align_forward (arena_offset arena) alignment) + unat sz"
    using assms by (simp only: unat_add_lem [symmetric] len_of_numeral_defs) simp
  then show ?thesis
    by (simp add: arena_allocator_alloc_def Let_def word_less_nat_alt)
qed


text \<open>
  C3. For the arena allocator, allocate(size, alignment) with a power-of-two alignment
  first rounds the current offset up to the next multiple of alignment; if that aligned
  offset plus size exceeds the buffer size it fails with OutOfSpace (the null pointer,
  the arena's one failure) and leaves the offset unchanged;
  otherwise it returns the address buffer + aligned offset and sets the offset to aligned
  offset + size.

  The code follows this as long as the sum of the aligned offset and the size is below
  \<open>2 ^ 64\<close> (\<open>arena_alloc_when_no_overflow\<close>). It compares the sum as a \<^verbatim>\<open>size_t\<close>,
  though, and a wrapped sum passes the comparison. With 1024 bytes of buffer, the offset
  at 8 and alignment 1, a request for \<open>2 ^ 64 - 4\<close> bytes exceeds the buffer by far; the
  call returns buffer + 8 all the same and moves the offset back to 4.
\<close>

theorem arena_alloc_size_overflow:
  "(let arena = \<lparr>arena_buffer = 0x1000, arena_buffer_size = 1024, arena_offset = 8\<rparr>
    in unat (align_forward (arena_offset arena) 1) + unat (0xFFFFFFFFFFFFFFFC :: size_t)
         > unat (arena_buffer_size arena)
       \<and> arena_allocator_alloc arena 0xFFFFFFFFFFFFFFFC 1
           = (Some 0x1008, arena\<lparr>arena_offset := 4\<rparr>))"
  by (simp add: arena_allocator_alloc_def align_forward_def Let_def)

text \<open>Each operation of the arena keeps the offset within the buffer.\<close>

lemma arena_alloc_invariant:
  "arena_invariant arena \<Longrightarrow> arena_invariant (snd (arena_allocator_alloc arena sz alignment))"
  by (simp add: arena_allocator_alloc_def arena_invariant_def Let_def not_less)

lemma arena_realloc_invariant:
  "arena_invariant arena \<Longrightarrow>
     arena_invariant (fst (snd (arena_allocator_realloc arena mem ptr old_size new_size alignment)))"
  by (auto simp add: arena_allocator_realloc_def arena_allocator_alloc_def arena_invariant_def
        Let_def not_less split: option.splits)

lemma arena_step_invariant:
  "arena_invariant (fst state) \<Longrightarrow> arena_invariant (fst (arena_step state call))"
proof (cases state)
  case (Pair arena mem)
  assume "arena_invariant (fst state)"
  with Pair show ?thesis
    using arena_alloc_invariant [of arena] arena_realloc_invariant [of arena mem]
    by (cases call)
      (simp_all add: arena_allocator_free_def arena_allocator_reset_def arena_invariant_def)
qed

lemma arena_run_invariant:
  "arena_invariant (fst state) \<Longrightarrow> arena_invariant (fst (arena_run state calls))"
  unfolding arena_run_def
  by (induction calls arbitrary: state) (simp_all add: arena_step_invariant)


text \<open>
  C4. For the arena allocator, the invariant 0 \<le> offset \<le> buffer_size holds after
  initialization and is preserved by every operation (allocate, reallocate, release,
  reset), for every sequence of calls; reset always sets the offset to 0.
\<close>

theorem arena_offset_within_buffer:
  "arena_invariant (arena_allocator_init buffer sz)
   \<and> arena_invariant (fst (arena_run (arena_allocator_init buffer sz, mem) calls))
   \<and> arena_offset (arena_allocator_reset arena) = 0"
  using arena_run_invariant [of "(arena_allocator_init buffer sz, mem)" calls]
  by (simp add: arena_invariant_def arena_allocator_init_def arena_allocator_reset_def)


section \<open>Stack: markers\<close>

lemma stack_alloc_fields:
  "stack_buffer (snd (stack_allocator_alloc stack sz alignment)) = stack_buffer stack"
  "stack_buffer_size (snd (stack_allocator_alloc stack sz alignment)) = stack_buffer_size stack"
  by (simp_all add: stack_allocator_alloc_def Let_def)

lemma stack_allocs_fields:
  "stack_buffer (stack_allocs stack reqs) = stack_buffer stack
   \<and> stack_buffer_size (stack_allocs stack reqs) = stack_buffer_size stack"
  unfolding stack_allocs_def
  by (induction reqs arbitrary: stack) (auto simp add: stack_alloc_fields)


text \<open>
  C8. For the stack allocator, restore(mark()) applied immediately leaves the state
  unchanged; and for any sequence of allocations, taking a marker, performing further
  allocations, then restoring that marker sets the offset exactly to the offset snapshot
  recorded at mark(). (The allocations change nothing but the offset, so the restore
  gives back the whole state at the mark.)
\<close>

theorem stack_restore_mark:
  "stack_allocator_restore stack (stack_allocator_mark stack) = stack
   \<and> stack_offset (stack_allocator_restore (stack_allocs stack reqs) (stack_allocator_mark stack))
       = marker_offset (stack_allocator_mark stack)
   \<and> stack_allocator_restore (stack_allocs stack reqs) (stack_allocator_mark stack) = stack"
  using stack_allocs_fields [of stack reqs]
  by (simp add: stack_allocator_restore_def stack_allocator_mark_def)


text \<open>
  The run of the demonstration driver: one allocation, a mark, two more allocations
  (each through \<^verbatim>\<open>alloc_create\<close>, which asks for pointer alignment) and the restore.
\<close>

lemma stack_restore_mark_example:
  "(let stack0 = stack_allocator_init 0x2000 512;
        (x, stack1) = stack_allocator_alloc stack0 4 8;
        marker = stack_allocator_mark stack1;
        (y, stack2) = stack_allocator_alloc stack1 4 8;
        (z, stack3) = stack_allocator_alloc stack2 4 8
    in (x, y, z, stack_offset stack1, stack_offset stack3,
        stack_offset (stack_allocator_restore stack3 marker)))
   = (Some 0x2000, Some 0x2008, Some 0x2010, 4, 20, 4)"
  by (simp add: stack_allocator_init_def stack_allocator_alloc_def stack_allocator_mark_def
        stack_allocator_restore_def align_forward_def Let_def)

section \<open>Pool: the free chain\<close>

text \<open>
  The pool of the demonstration driver, 8 chunks of 32 bytes in a buffer at \<open>0x1000\<close>:
  the initialiser threads the chunks in ascending order of address.
\<close>

lemma pool_chain_head: "pool_chain mem p ns \<Longrightarrow> p \<noteq> Some 0"
  by (cases ns) auto

lemma pool_chain_store:
  "pool_chain mem p ns \<Longrightarrow> (\<forall>n \<in> set ns. apart a n) \<Longrightarrow> pool_chain (store64 mem a w) p ns"
  by (induction ns arbitrary: p) (simp_all add: load64_store64_apart)

lemma pool_init_eval:
  "pool_allocator_init 0x1000 32 8 mem =
     (\<lparr>pool_buffer = 0x1000, pool_chunk_size = 32, pool_chunk_count = 8,
       pool_free_list = Some 0x1000\<rparr>,
      store64 (store64 (store64 (store64 (store64 (store64 (store64 (store64 mem
        0x10E0 0) 0x10C0 0x10E0) 0x10A0 0x10C0) 0x1080 0x10A0) 0x1060 0x1080)
        0x1040 0x1060) 0x1020 0x1040) 0x1000 0x1020)"
  by (simp add: pool_allocator_init_def pool_init_loop.simps ptr_to_word_def)


lemma pool_chain_init:
  "pool_chain (snd (pool_allocator_init 0x1000 32 8 mem))
     (pool_free_list (fst (pool_allocator_init 0x1000 32 8 mem)))
     [0x1000, 0x1020, 0x1040, 0x1060, 0x1080, 0x10A0, 0x10C0, 0x10E0]"
  by (simp add: pool_init_eval load64_store64_same load64_store64_apart apart_def
        word_to_ptr_def)


text \<open>
  C6, as the code has it. For the pool allocator with fixed chunk size S,
  allocate(size, alignment) fails when size > S and fails when size \<le> S and the free
  chain is empty, in both cases by returning the null pointer with the state unchanged;
  the null pointer is the only failure signal and carries no failure kind. Otherwise the
  call succeeds by popping and returning the free-chain head.
\<close>

theorem pool_alloc_cases:
  "(pool_chunk_size pool < sz \<longrightarrow> pool_allocator_alloc pool mem sz alignment = (None, pool))
   \<and> (sz \<le> pool_chunk_size pool \<and> pool_free_list pool = None
        \<longrightarrow> pool_allocator_alloc pool mem sz alignment = (None, pool))
   \<and> (sz \<le> pool_chunk_size pool \<and> pool_chain mem (pool_free_list pool) (head # rest)
        \<longrightarrow> pool_allocator_alloc pool mem sz alignment
              = (Some head, pool\<lparr>pool_free_list := word_to_ptr (load64 mem head)\<rparr>)
            \<and> pool_chain mem (word_to_ptr (load64 mem head)) rest)"
  by (auto simp add: pool_allocator_alloc_def)


text \<open>The three cases on the pool of the demonstration driver.\<close>

theorem pool_alloc_cases_witness:
  "(let (pool, mem) = pool_allocator_init 0x1000 32 8 (\<lambda>_. 0);
        drained = pool\<lparr>pool_free_list := None\<rparr>
    in pool_allocator_alloc pool mem 33 1 = (None, pool)
       \<and> pool_allocator_alloc drained mem 32 1 = (None, drained)
       \<and> pool_allocator_alloc pool mem 32 1 = (Some 0x1000, pool\<lparr>pool_free_list := Some 0x1020\<rparr>)
       \<and> pool_chain mem (Some 0x1020) [0x1020, 0x1040, 0x1060, 0x1080, 0x10A0, 0x10C0, 0x10E0])"
proof -
  define pool where "pool = fst (pool_allocator_init 0x1000 32 8 (\<lambda>_. 0))"
  define mem where "mem = snd (pool_allocator_init 0x1000 32 8 (\<lambda>_. 0))"
  have init: "pool_allocator_init 0x1000 32 8 (\<lambda>_. 0) = (pool, mem)"
    by (simp add: pool_def mem_def)
  have fields: "pool_chunk_size pool = 32" "pool_free_list pool = Some 0x1000"
    by (simp_all add: pool_def pool_init_eval)
  have chain: "pool_chain mem (pool_free_list pool)
                 (0x1000 # [0x1020, 0x1040, 0x1060, 0x1080, 0x10A0, 0x10C0, 0x10E0])"
    using pool_chain_init [of "\<lambda>_. 0"] by (simp add: pool_def mem_def)
  then have next_chunk: "word_to_ptr (load64 mem 0x1000) = Some 0x1020"
    by simp
  show ?thesis
    using pool_alloc_cases [where pool = pool and sz = 33 and mem = mem and alignment = 1]
      pool_alloc_cases [where pool = "pool\<lparr>pool_free_list := None\<rparr>" and sz = 32
        and mem = mem and alignment = 1]
      pool_alloc_cases [where pool = pool and sz = 32 and mem = mem and alignment = 1
        and head = "0x1000"
        and rest = "[0x1020, 0x1040, 0x1060, 0x1080, 0x10A0, 0x10C0, 0x10E0]"]
      chain fields next_chunk
    by (simp add: init)
qed


text \<open>
  C6 as stated tells two failure kinds apart, ChunkTooLarge and OutOfSpace. On a pool
  with chunk size 32 and an empty chain, a request for 33 bytes (too large) and a
  request for 32 bytes (nothing free) return the very same result, so that nothing a
  caller computes from the result can name the kind of the failure.
\<close>

theorem pool_failures_look_alike:
  "(let pool = \<lparr>pool_buffer = 0x1000, pool_chunk_size = 32, pool_chunk_count = 8,
                 pool_free_list = None\<rparr>;
        too_large = pool_allocator_alloc pool (\<lambda>_. 0) 33 1;
        exhausted = pool_allocator_alloc pool (\<lambda>_. 0) 32 1
    in pool_chunk_size pool < 33
       \<and> 32 \<le> pool_chunk_size pool \<and> pool_free_list pool = None
       \<and> too_large = (None, pool)
       \<and> exhausted = (None, pool)
       \<and> \<not> (\<exists>kind :: pointer \<times> pool_allocator \<Rightarrow> string.
               kind too_large = ''ChunkTooLarge'' \<and> kind exhausted = ''OutOfSpace''))"
  by (simp add: pool_allocator_alloc_def)


text \<open>
  Release and allocation on any chain: a chunk that is not null, and whose link cell
  overlaps that of no chunk on the chain, comes back from the next allocation, and the
  chain behind it is the chain before the release.
\<close>

lemma pool_release_then_allocate:
  assumes chain: "pool_chain mem (pool_free_list pool) ns"
    and chunk: "a \<noteq> 0" "\<forall>n \<in> set ns. apart a n"
    and fits: "sz' \<le> pool_chunk_size pool"
  shows "(let (pool1, mem1) = pool_allocator_free pool mem (Some a) sz;
              (r, pool2) = pool_allocator_alloc pool1 mem1 sz' alignment
          in r = Some a \<and> pool2 = pool \<and> pool_chain mem1 (pool_free_list pool2) ns)"
proof -
  have "word_to_ptr (ptr_to_word (pool_free_list pool)) = pool_free_list pool"
    using pool_chain_head [OF chain] by (rule word_to_ptr_inverse)
  moreover have "pool_chain (store64 mem a (ptr_to_word (pool_free_list pool)))
                   (pool_free_list pool) ns"
    using chain chunk(2) by (rule pool_chain_store)
  ultimately show ?thesis
    using fits
    by (simp add: pool_allocator_free_def pool_allocator_alloc_def load64_store64_same not_less)
qed


text \<open>
  The chunks of a pool with a sound layout lie at their addresses without wrapping
  around the address space; they are not null and the link cells of two of them do not
  overlap.
\<close>

lemma pool_chunk_unat:
  assumes layout: "pool_layout_ok buffer chunk_size chunk_count"
    and k: "k < unat chunk_count"
  shows "unat (pool_chunk buffer chunk_size k) = unat buffer + k * unat chunk_size"
proof -
  have "k * unat chunk_size \<le> unat chunk_count * unat chunk_size"
    using k by (simp add: mult_le_mono1)
  moreover have "8 \<le> unat chunk_size"
    and room: "unat buffer + unat chunk_count * unat chunk_size \<le> 2 ^ 64"
    using layout by (simp_all add: pool_layout_ok_def)
  moreover have "k * unat chunk_size + unat chunk_size \<le> unat chunk_count * unat chunk_size"
    using k mult_le_mono1 [of "Suc k" "unat chunk_count" "unat chunk_size"] by simp
  ultimately have small: "unat buffer + k * unat chunk_size < 2 ^ 64"
    by linarith
  have "unat chunk_count < 2 ^ 64"
    using unsigned_less [of chunk_count] by simp
  then have index: "unat (of_nat k :: size_t) = k"
    using k by (simp add: unat_of_nat)
  have "unat (of_nat k :: size_t) * unat chunk_size < 2 ^ LENGTH(64)"
    using small index by simp
  then have "unat (of_nat k * chunk_size) = unat (of_nat k :: size_t) * unat chunk_size"
    by (simp only: unat_mult_lem)
  then have product: "unat (of_nat k * chunk_size) = k * unat chunk_size"
    using index by simp
  then have "unat buffer + unat (of_nat k * chunk_size) < 2 ^ LENGTH(64)"
    using small by simp
  then have "unat (buffer + of_nat k * chunk_size) = unat buffer + unat (of_nat k * chunk_size)"
    by (simp only: unat_add_lem)
  then show ?thesis
    using product by (simp add: pool_chunk_def)
qed


lemma pool_chunk_not_null:
  assumes "pool_layout_ok buffer chunk_size chunk_count" and "k < unat chunk_count"
  shows "pool_chunk buffer chunk_size k \<noteq> 0"
proof -
  have "unat buffer \<noteq> 0"
    using assms(1) by (simp add: pool_layout_ok_def unat_eq_0)
  then have "unat (pool_chunk buffer chunk_size k) \<noteq> 0"
    using pool_chunk_unat [OF assms] by simp
  then show ?thesis
    by auto
qed

lemma apart_unat:
  "apart a b \<longleftrightarrow>
     (if unat a \<le> unat b then 8 \<le> unat b - unat a \<and> unat b - unat a \<le> 2 ^ 64 - 8
      else 8 \<le> unat a - unat b \<and> unat a - unat b \<le> 2 ^ 64 - 8)"
proof -
  have a: "unat a < 2 ^ 64" and b: "unat b < 2 ^ 64"
    using unsigned_less [of a] unsigned_less [of b] by simp_all
  have "unat (b - a) = (if unat a \<le> unat b then unat b - unat a else unat b + 2 ^ 64 - unat a)"
    by (simp add: unat_sub_if_size word_size)
  then show ?thesis
    using a b by (auto simp add: apart_def word_le_nat_alt)
qed

lemma pool_chunks_apart:
  assumes layout: "pool_layout_ok buffer chunk_size chunk_count"
    and k: "k < unat chunk_count" and l: "l < unat chunk_count" and differ: "k \<noteq> l"
  shows "apart (pool_chunk buffer chunk_size k) (pool_chunk buffer chunk_size l)"
proof -
  define s where "s = unat chunk_size"
  define b where "b = unat buffer"
  have s: "8 \<le> s" and room: "b + unat chunk_count * s \<le> 2 ^ 64"
    using layout by (simp_all add: pool_layout_ok_def s_def b_def)
  have top: "i * s + s \<le> unat chunk_count * s" if "i < unat chunk_count" for i
    using that mult_le_mono1 [of "Suc i" "unat chunk_count" s] by simp
  have step: "i * s + s \<le> j * s" if "i < j" for i j
    using that mult_le_mono1 [of "Suc i" j s] by simp
  have uk: "unat (pool_chunk buffer chunk_size k) = b + k * s"
    and ul: "unat (pool_chunk buffer chunk_size l) = b + l * s"
    using pool_chunk_unat [OF layout k] pool_chunk_unat [OF layout l]
    by (simp_all add: s_def b_def)
  consider "k < l" | "l < k"
    using differ by linarith
  then show ?thesis
  proof cases
    case 1
    then show ?thesis
      using step [OF 1] top [OF l] s room unfolding apart_unat uk ul by (simp; linarith)
  next
    case 2
    then show ?thesis
      using step [OF 2] top [OF k] s room unfolding apart_unat uk ul by (simp; linarith)
  qed
qed


text \<open>The initialiser threads all chunks into the chain, in ascending order.\<close>

lemma pool_init_loop_chain:
  assumes "pool_layout_ok (pool_buffer pool) (pool_chunk_size pool) (pool_chunk_count pool)"
    and "i \<le> pool_chunk_count pool"
    and "pool_chain mem (pool_free_list pool)
           (map (pool_chunk (pool_buffer pool) (pool_chunk_size pool))
              [unat (pool_chunk_count pool) - unat i..<unat (pool_chunk_count pool)])"
  shows "\<exists>head mem'. pool_init_loop pool mem i = (pool\<lparr>pool_free_list := head\<rparr>, mem')
           \<and> pool_chain mem' head
               (map (pool_chunk (pool_buffer pool) (pool_chunk_size pool))
                  [0..<unat (pool_chunk_count pool)])"
  using assms
proof (induction pool mem i rule: pool_init_loop.induct)
  case (1 pool mem i)
  let ?n = "unat (pool_chunk_count pool)"
  let ?chunk = "pool_chunk (pool_buffer pool) (pool_chunk_size pool)"
  note layout = "1.prems"(1) and chain = "1.prems"(3)
  show ?case
  proof (cases "i < pool_chunk_count pool")
    case False
    with "1.prems"(2) have "i = pool_chunk_count pool"
      by simp
    with chain show ?thesis
      by (subst pool_init_loop.simps) (simp add: exI [of _ "pool_free_list pool"])
  next
    case True
    then have below: "unat i < ?n"
      by (simp add: word_less_nat_alt)
    define k where "k = ?n - 1 - unat i"
    have k: "k < ?n"
      using below by (simp add: k_def)
    have "?n < 2 ^ 64"
      using unsigned_less [of "pool_chunk_count pool"] by simp
    then have "unat (i + 1) = unat i + unat (1 :: size_t)"
      using below by (simp only: unat_add_lem [symmetric] len_of_numeral_defs) simp
    then have next_i: "unat (i + 1) = Suc (unat i)"
      by simp
    then have next_le: "i + 1 \<le> pool_chunk_count pool"
      using below by (simp add: word_le_nat_alt)
    have "(1 :: size_t) \<le> pool_chunk_count pool"
      using below by (simp add: word_le_nat_alt)
    then have "unat (pool_chunk_count pool - 1) = ?n - 1"
      by (simp add: unat_sub)
    moreover have "i \<le> pool_chunk_count pool - 1"
      using below calculation by (simp add: word_le_nat_alt)
    ultimately have "unat (pool_chunk_count pool - 1 - i) = k"
      by (simp add: unat_sub k_def)
    moreover have "of_nat (unat (pool_chunk_count pool - 1 - i)) = pool_chunk_count pool - 1 - i"
      by simp
    ultimately have "pool_chunk_count pool - 1 - i = of_nat k"
      by simp
    then have chunk: "pool_buffer pool + (pool_chunk_count pool - 1 - i) * pool_chunk_size pool
                        = ?chunk k"
      by (simp add: pool_chunk_def)
    have range: "[?n - unat (i + 1)..<?n] = k # [?n - unat i..<?n]"
      using below unfolding next_i k_def
      by (metis Suc_diff_Suc diff_Suc_eq_diff_pred diff_less upt_conv_Cons zero_less_Suc
            less_nat_zero_code neq0_conv)
    have others: "\<forall>n \<in> set (map ?chunk [?n - unat i..<?n]). apart (?chunk k) n"
      using pool_chunks_apart [OF layout k] below by (auto simp add: k_def)
    have "pool_chain (store64 mem (?chunk k) (ptr_to_word (pool_free_list pool)))
            (Some (?chunk k)) (map ?chunk [?n - unat (i + 1)..<?n])"
      using pool_chain_store [OF chain others] pool_chunk_not_null [OF layout k]
        word_to_ptr_inverse [OF pool_chain_head [OF chain]]
      by (simp add: range load64_store64_same)
    with "1.IH" [OF True refl] layout next_le
    obtain head mem' where
      "pool_init_loop (pool\<lparr>pool_free_list := Some (?chunk k)\<rparr>)
         (store64 mem (?chunk k) (ptr_to_word (pool_free_list pool))) (i + 1)
       = (pool\<lparr>pool_free_list := head\<rparr>, mem')"
      and "pool_chain mem' head (map ?chunk [0..<?n])"
      by (auto simp add: chunk)
    with True show ?thesis
      by (subst pool_init_loop.simps) (auto simp add: chunk Let_def)
  qed
qed


lemma pool_chunks_distinct:
  assumes "pool_layout_ok buffer chunk_size chunk_count"
  shows "distinct (map (pool_chunk buffer chunk_size) [0..<unat chunk_count])"
proof -
  have "inj_on (pool_chunk buffer chunk_size) (set [0..<unat chunk_count])"
  proof (rule inj_onI)
    fix k l
    assume "k \<in> set [0..<unat chunk_count]" "l \<in> set [0..<unat chunk_count]"
      and same: "pool_chunk buffer chunk_size k = pool_chunk buffer chunk_size l"
    then have "k < unat chunk_count" "l < unat chunk_count"
      by simp_all
    then show "k = l"
      using pool_chunks_apart [OF assms, of k l] same by (auto simp add: apart_def)
  qed
  then show ?thesis
    by (simp add: distinct_map)
qed

lemma pool_init_invariant:
  assumes layout: "pool_layout_ok buffer chunk_size chunk_count"
    and init: "pool_allocator_init buffer chunk_size chunk_count mem0 = (pool, mem)"
  shows "pool_invariant buffer chunk_size chunk_count (pool, mem, {})"
proof -
  let ?pool0 = "\<lparr>pool_buffer = buffer, pool_chunk_size = chunk_size,
                  pool_chunk_count = chunk_count, pool_free_list = None\<rparr>"
  from pool_init_loop_chain [of ?pool0 0 mem0] layout
  obtain head mem' where "pool_init_loop ?pool0 mem0 0 = (?pool0\<lparr>pool_free_list := head\<rparr>, mem')"
    and "pool_chain mem' head (map (pool_chunk buffer chunk_size) [0..<unat chunk_count])"
    by auto
  with init pool_chunks_distinct [OF layout] show ?thesis
    by (auto simp add: pool_invariant_def pool_allocator_init_def
          intro!: exI [of _ "map (pool_chunk buffer chunk_size) [0..<unat chunk_count]"])
qed


text \<open>
  In every reachable state the free chain is a list of distinct chunks, none of which
  the client holds.
\<close>

lemma load64_same_bytes:
  assumes "\<And>j. j < 8 \<Longrightarrow> mem' (n + of_nat j) = mem (n + of_nat j)"
  shows "load64 mem' n = load64 mem n"
  using assms [of 0] assms [of 1] assms [of 2] assms [of 3] assms [of 4] assms [of 5]
    assms [of 6] assms [of 7]
  by (simp add: load64_def)

lemma pool_chain_same_bytes:
  "pool_chain mem p ns
   \<Longrightarrow> (\<forall>n \<in> set ns. \<forall>j < 8. mem' (n + of_nat j) = mem (n + of_nat j))
   \<Longrightarrow> pool_chain mem' p ns"
proof (induction ns arbitrary: p)
  case Nil
  then show ?case by simp
next
  case (Cons n ns)
  then have "load64 mem' n = load64 mem n"
    by (intro load64_same_bytes) simp
  with Cons show ?case
    by simp
qed

lemma pool_reachable_invariant:
  assumes layout: "pool_layout_ok buffer chunk_size chunk_count"
    and reach: "pool_reachable buffer chunk_size chunk_count state"
  shows "pool_invariant buffer chunk_size chunk_count state"
  using reach
proof (induction rule: pool_reachable.induct)
  case (reach_init mem0 pool mem)
  then show ?case
    by (rule pool_init_invariant [OF layout])
next
  case (reach_alloc pool mem live sz alignment a pool')
  from reach_alloc.IH obtain ns where fields: "pool_buffer pool = buffer"
      "pool_chunk_size pool = chunk_size" "pool_chunk_count pool = chunk_count"
    and ns: "pool_chain mem (pool_free_list pool) ns" "distinct ns" "set ns \<inter> live = {}"
      "set ns \<union> live \<subseteq> pool_chunk buffer chunk_size ` {k. k < unat chunk_count}"
    by (auto simp add: pool_invariant_def)
  from reach_alloc.hyps(2) obtain rest where "ns = a # rest"
    and "pool' = pool\<lparr>pool_free_list := word_to_ptr (load64 mem a)\<rparr>"
    using ns(1)
    by (cases ns) (auto simp add: pool_allocator_alloc_def split: if_splits option.splits)
  with fields ns show ?case
    by (auto simp add: pool_invariant_def intro!: exI [of _ rest])
next
  case (reach_free pool mem live a sz pool' mem')
  from reach_free.IH obtain ns where fields: "pool_buffer pool = buffer"
      "pool_chunk_size pool = chunk_size" "pool_chunk_count pool = chunk_count"
    and ns: "pool_chain mem (pool_free_list pool) ns" "distinct ns" "set ns \<inter> live = {}"
      "set ns \<union> live \<subseteq> pool_chunk buffer chunk_size ` {k. k < unat chunk_count}"
    by (auto simp add: pool_invariant_def)
  from ns(4) reach_free.hyps(2) obtain k where k: "k < unat chunk_count"
    and a: "a = pool_chunk buffer chunk_size k"
    by auto
  have "apart a n" if "n \<in> set ns" for n
  proof -
    from that ns(4) obtain l where "l < unat chunk_count" "n = pool_chunk buffer chunk_size l"
      by auto
    moreover from that ns(3) reach_free.hyps(2) have "n \<noteq> a"
      by auto
    ultimately show ?thesis
      using pool_chunks_apart [OF layout k, of l] a by auto
  qed
  then have "pool_chain (store64 mem a (ptr_to_word (pool_free_list pool)))
               (pool_free_list pool) ns"
    using pool_chain_store [OF ns(1)] by simp
  then have "pool_chain mem' (pool_free_list pool') (a # ns)"
    using reach_free.hyps(3) pool_chunk_not_null [OF layout k] a
      word_to_ptr_inverse [OF pool_chain_head [OF ns(1)]]
    by (auto simp add: pool_allocator_free_def load64_store64_same)
  moreover have "a \<notin> set ns"
    using ns(3) reach_free.hyps(2) by auto
  moreover have "pool_buffer pool' = buffer" "pool_chunk_size pool' = chunk_size"
    "pool_chunk_count pool' = chunk_count"
    using reach_free.hyps(3) fields by (auto simp add: pool_allocator_free_def)
  ultimately show ?case
    using ns reach_free.hyps(2)
    by (auto simp add: pool_invariant_def intro!: exI [of _ "a # ns"])
next
  case (reach_write pool mem live mem')
  from reach_write.IH obtain ns where fields: "pool_buffer pool = buffer"
      "pool_chunk_size pool = chunk_size" "pool_chunk_count pool = chunk_count"
    and ns: "pool_chain mem (pool_free_list pool) ns" "distinct ns" "set ns \<inter> live = {}"
      "set ns \<union> live \<subseteq> pool_chunk buffer chunk_size ` {k. k < unat chunk_count}"
    by (auto simp add: pool_invariant_def)
  have "\<forall>n \<in> set ns. \<forall>j < 8. mem' (n + of_nat j) = mem (n + of_nat j)"
  proof (intro ballI allI impI)
    fix n and j :: nat
    assume n: "n \<in> set ns" and j: "j < 8"
    from n ns(4) obtain k where "k < unat chunk_count" "n = pool_chunk buffer chunk_size k"
      by auto
    moreover from n ns(3) have "n \<notin> live"
      by auto
    ultimately show "mem' (n + of_nat j) = mem (n + of_nat j)"
      using reach_write.hyps(2) j by auto
  qed
  with ns(1) have "pool_chain mem' (pool_free_list pool) ns"
    by (rule pool_chain_same_bytes)
  with fields ns show ?case
    by (auto simp add: pool_invariant_def intro!: exI [of _ ns])
qed


lemma pool_chain_unique: "pool_chain mem p ns \<Longrightarrow> pool_chain mem p ms \<Longrightarrow> ns = ms"
proof (induction ns arbitrary: p ms)
  case Nil
  then show ?case by (cases ms) auto
next
  case (Cons n ns)
  then show ?case by (cases ms) auto
qed


text \<open>
  C7. For the pool allocator, for every reachable state, releasing a previously
  allocated chunk and then immediately calling allocate with any size not exceeding the
  chunk size returns that same chunk's address (the most recently released chunk is
  reused first), and the rest of the free chain is as it was before the release: the
  allocator is back in the state before the release, and the chain in memory visits the
  same chunks as before.
\<close>

theorem pool_lifo_reuse:
  assumes layout: "pool_layout_ok buffer chunk_size chunk_count"
    and reach: "pool_reachable buffer chunk_size chunk_count (pool, mem, live)"
    and held: "a \<in> live"
    and fits: "sz' \<le> pool_chunk_size pool"
  shows "\<exists>ns. pool_chain mem (pool_free_list pool) ns
           \<and> (let (pool1, mem1) = pool_allocator_free pool mem (Some a) sz;
                   (r, pool2) = pool_allocator_alloc pool1 mem1 sz' alignment
               in r = Some a \<and> pool2 = pool \<and> pool_chain mem1 (pool_free_list pool2) ns)"
proof -
  from pool_reachable_invariant [OF layout reach]
  obtain ns where ns: "pool_chain mem (pool_free_list pool) ns" "set ns \<inter> live = {}"
      "set ns \<union> live \<subseteq> pool_chunk buffer chunk_size ` {k. k < unat chunk_count}"
    by (auto simp add: pool_invariant_def)
  from ns(3) held obtain k where k: "k < unat chunk_count"
    and a: "a = pool_chunk buffer chunk_size k"
    by auto
  have "apart a n" if "n \<in> set ns" for n
  proof -
    from that ns(3) obtain l where "l < unat chunk_count" "n = pool_chunk buffer chunk_size l"
      by auto
    moreover from that ns(2) held have "n \<noteq> a"
      by auto
    ultimately show ?thesis
      using pool_chunks_apart [OF layout k, of l] a by auto
  qed
  then have "\<forall>n \<in> set ns. apart a n"
    by simp
  with ns(1) pool_chunk_not_null [OF layout k] a fits show ?thesis
    by (intro exI [of _ ns] conjI pool_release_then_allocate) simp_all
qed


text \<open>
  The run of the demonstration driver: three allocations, release of the second chunk,
  and the next allocation returns it.
\<close>

theorem pool_lifo_reuse_witness:
  "(let (pool0, mem) = pool_allocator_init 0x1000 32 8 (\<lambda>_. 0);
        (p1, pool1) = pool_allocator_alloc pool0 mem 32 1;
        (p2, pool2) = pool_allocator_alloc pool1 mem 32 1;
        (p3, pool3) = pool_allocator_alloc pool2 mem 32 1;
        (pool4, mem4) = pool_allocator_free pool3 mem p2 32;
        (p4, pool5) = pool_allocator_alloc pool4 mem4 32 1
    in (p1, p2, p3) = (Some 0x1000, Some 0x1020, Some 0x1040)
       \<and> p4 = Some 0x1020 \<and> pool5 = pool3
       \<and> pool_chain mem (pool_free_list pool3) [0x1060, 0x1080, 0x10A0, 0x10C0, 0x10E0]
       \<and> pool_chain mem4 (pool_free_list pool5) [0x1060, 0x1080, 0x10A0, 0x10C0, 0x10E0])"
proof -
  define mem where "mem = snd (pool_allocator_init 0x1000 32 8 (\<lambda>_. 0))"
  define pool3 where
    "pool3 = \<lparr>pool_buffer = 0x1000, pool_chunk_size = 32, pool_chunk_count = 8,
               pool_free_list = Some 0x1060\<rparr>"
  have init: "pool_allocator_init 0x1000 32 8 (\<lambda>_. 0) = (pool3\<lparr>pool_free_list := Some 0x1000\<rparr>, mem)"
    by (simp add: mem_def pool3_def pool_init_eval)
  have chain: "pool_chain mem (Some 0x1000)
                 [0x1000, 0x1020, 0x1040, 0x1060, 0x1080, 0x10A0, 0x10C0, 0x10E0]"
    using pool_chain_init [of "\<lambda>_. 0"] by (simp add: mem_def pool_init_eval)
  then have links: "word_to_ptr (load64 mem 0x1000) = Some 0x1020"
    "word_to_ptr (load64 mem 0x1020) = Some 0x1040"
    "word_to_ptr (load64 mem 0x1040) = Some 0x1060"
    and chain3: "pool_chain mem (pool_free_list pool3) [0x1060, 0x1080, 0x10A0, 0x10C0, 0x10E0]"
    by (simp_all add: pool3_def)
  have steps: "pool_allocator_alloc (pool3\<lparr>pool_free_list := Some 0x1000\<rparr>) mem 32 1
                 = (Some 0x1000, pool3\<lparr>pool_free_list := Some 0x1020\<rparr>)"
    "pool_allocator_alloc (pool3\<lparr>pool_free_list := Some 0x1020\<rparr>) mem 32 1
                 = (Some 0x1020, pool3\<lparr>pool_free_list := Some 0x1040\<rparr>)"
    "pool_allocator_alloc (pool3\<lparr>pool_free_list := Some 0x1040\<rparr>) mem 32 1
                 = (Some 0x1040, pool3)"
    by (simp_all add: pool_allocator_alloc_def links pool3_def)
  have reach: "pool_reachable 0x1000 32 8
                 (pool3, mem, insert 0x1040 (insert 0x1020 (insert 0x1000 {})))"
    by (intro reach_alloc [OF _ steps(3)] reach_alloc [OF _ steps(2)]
          reach_alloc [OF _ steps(1)] reach_init [OF init])
  have layout: "pool_layout_ok 0x1000 32 8"
    by (simp add: pool_layout_ok_def)
  have held: "0x1020 \<in> insert (0x1040 :: addr) (insert 0x1020 (insert 0x1000 {}))"
    by simp
  have fits: "32 \<le> pool_chunk_size pool3"
    by (simp add: pool3_def)
  from pool_lifo_reuse [OF layout reach held fits, where sz = 32 and alignment = 1]
  obtain ns where "pool_chain mem (pool_free_list pool3) ns"
    and reuse: "(let (pool1, mem1) = pool_allocator_free pool3 mem (Some 0x1020) 32;
                     (r, pool2) = pool_allocator_alloc pool1 mem1 32 1
                 in r = Some 0x1020 \<and> pool2 = pool3 \<and> pool_chain mem1 (pool_free_list pool2) ns)"
    by blast
  with chain3 have "ns = [0x1060, 0x1080, 0x10A0, 0x10C0, 0x10E0]"
    by (simp add: pool_chain_unique)
  with reuse chain3 show ?thesis
    by (simp add: init steps split: prod.splits)
qed

section \<open>Reallocation of the null pointer\<close>

text \<open>
  The arena, the stack, the scratch and the freelist allocator test for the null pointer
  first and hand the call over to their allocate.
\<close>

lemma arena_realloc_null:
  "arena_allocator_realloc arena mem None old_size new_size alignment =
     (let (p, arena') = arena_allocator_alloc arena new_size alignment in (p, arena', mem))"
  by (simp add: arena_allocator_realloc_def)

lemma stack_realloc_null:
  "stack_allocator_realloc stack mem None old_size new_size alignment =
     (let (p, stack') = stack_allocator_alloc stack new_size alignment in (p, stack', mem))"
  by (simp add: stack_allocator_realloc_def)

lemma scratch_realloc_null:
  "scratch_allocator_realloc scratch mem None old_size new_size alignment =
     scratch_allocator_alloc scratch mem new_size alignment"
  by (simp add: scratch_allocator_realloc_def)


lemma freelist_realloc_null:
  "freelist_allocator_realloc freelist mem None old_size new_size alignment =
     freelist_allocator_alloc freelist mem new_size alignment"
  by (simp add: freelist_allocator_realloc_def)

lemma pool_realloc_null:
  "pool_allocator_realloc pool mem None old_size new_size alignment =
     (if new_size \<le> pool_chunk_size pool \<and> old_size \<le> pool_chunk_size pool
      then (None, pool, mem)
      else (let (p, pool') = pool_allocator_alloc pool mem new_size alignment
            in (p, pool', mem)))"
  by (simp add: pool_allocator_realloc_def split: prod.splits option.splits)


text \<open>
  C1. For every strategy's reallocate operation, calling it with a null pointer behaves
  exactly as allocate(new_size, alignment), in particular for the pool allocator when
  new_size fits the chunk size.

  The pool's reallocate has no test for the null pointer. When both sizes fit the chunk
  size it returns its argument, the null pointer, and allocates nothing
  (\<open>pool_realloc_null\<close>). On the fresh pool of the demonstration driver,
  reallocate(NULL, 0, 16, 8) fails and leaves the chain alone, where allocate(16, 8)
  returns the first chunk.
\<close>

theorem pool_realloc_null_is_not_alloc:
  "(let (pool, mem) = pool_allocator_init 0x1000 32 8 (\<lambda>_. 0)
    in pool_allocator_realloc pool mem None 0 16 8 = (None, pool, mem)
       \<and> pool_allocator_alloc pool mem 16 8
           = (Some 0x1000, pool\<lparr>pool_free_list := Some 0x1020\<rparr>))"
proof -
  have "word_to_ptr (load64 (snd (pool_allocator_init 0x1000 32 8 (\<lambda>_. 0))) 0x1000) = Some 0x1020"
    using pool_chain_init [of "\<lambda>_. 0"] by (simp add: pool_init_eval)
  then show ?thesis
    by (simp add: pool_allocator_realloc_def pool_allocator_alloc_def pool_init_eval)
qed

section \<open>The freelist allocator on concrete memory\<close>

text \<open>
  What the dispatchers do on the handle of a freelist allocator, and the rules that
  evaluate its operations on a memory given as a sequence of stores of eight bytes that
  lie apart.
\<close>

lemma freelist_get_alloc:
  "alloc_alloc (freelist_allocator_get freelist) mem sz alignment =
     map_option (\<lambda>(p, freelist', mem'). (p, freelist_allocator_get freelist', mem'))
       (freelist_allocator_alloc freelist mem sz alignment)"
  by (simp add: alloc_alloc_def freelist_allocator_get_def split: option.splits)

lemma freelist_get_realloc:
  "alloc_realloc (freelist_allocator_get freelist) mem ptr old_size new_size alignment =
     map_option (\<lambda>(p, freelist', mem'). (p, freelist_allocator_get freelist', mem'))
       (freelist_allocator_realloc freelist mem ptr old_size new_size alignment)"
  by (simp add: alloc_realloc_def freelist_allocator_get_def split: option.splits)

lemma freelist_get_free:
  "alloc_free (freelist_allocator_get freelist) mem ptr sz =
     (freelist_allocator_get (fst (freelist_allocator_free freelist mem ptr sz)),
      snd (freelist_allocator_free freelist mem ptr sz))"
  by (simp add: alloc_free_def freelist_allocator_get_def case_prod_beta)

lemma freelist_get_ctx: "ctx (freelist_allocator_get freelist) = freelist"
  by (simp add: freelist_allocator_get_def)

lemmas freelist_eval =
  freelist_allocator_alloc_def freelist_allocator_free_def freelist_alloc_loop.simps
  store_link_def node_size_def node_next_def align_forward_def word_to_ptr_def ptr_to_word_def
  load64_store64_same load64_store64_apart apart_def Let_def

lemmas freelist_backing_eval =
  freelist_get_alloc freelist_get_realloc freelist_get_free freelist_allocator_realloc_def
  freelist_eval

lemma freelist_init_eval:
  "freelist_allocator_init 0x6000 1024 (\<lambda>_. 0) =
     (\<lparr>freelist_buffer = 0x6000, freelist_buffer_size = 1024, freelist_free_list = Some 0x6000\<rparr>,
      store64 (store64 (\<lambda>_. 0) 0x6000 1024) 0x6008 0)"
  by (simp add: freelist_allocator_init_def)

lemma freelist_init_node:
  "node_size (store64 (store64 (\<lambda>_. 0) 0x6000 1024) 0x6008 0) 0x6000 = 1024"
  "node_next (store64 (store64 (\<lambda>_. 0) 0x6000 1024) 0x6008 0) 0x6000 = None"
  by (simp_all add: node_size_def node_next_def load64_store64_same load64_store64_apart
        apart_def word_to_ptr_def)



section \<open>Scratch: bulk release\<close>

text \<open>
  The release loop of reset reads cell after cell of the array from the memory that the
  releases before have left. When these releases leave the cells of the array as they
  are, the loop releases the tracked pointers, first to last, each with size 0.
\<close>

lemma tracked_cells_length: "length (tracked_cells allocations count mem) = unat count"
  by (simp add: tracked_cells_def)

lemma tracked_cells_nth:
  "i < unat count \<Longrightarrow>
     tracked_cells allocations count mem ! i
       = word_to_ptr (load64 mem (allocations_cell allocations (of_nat i)))"
  by (simp add: tracked_cells_def)

lemma release_all_step:
  assumes "i < length ps"
  shows "release_all s (take (Suc i) ps) =
           alloc_free (fst (release_all s (take i ps))) (snd (release_all s (take i ps)))
             (ps ! i) 0"
  using assms by (simp add: release_all_def take_Suc_conv_app_nth case_prod_beta)

lemma scratch_reset_loop_from:
  assumes tracked: "ps = tracked_cells allocations count mem"
    and frame: "\<forall>k < unat count.
                  tracked_cells allocations count (snd (release_all (backing, mem) (take k ps)))
                    = ps"
    and i: "i \<le> unat count"
  shows "scratch_reset_loop (fst (release_all (backing, mem) (take i ps)))
           (snd (release_all (backing, mem) (take i ps))) allocations count (of_nat i)
         = release_all (backing, mem) ps"
  using i
proof (induction "unat count - i" arbitrary: i)
  case 0
  then have "i = unat count"
    by simp
  then have "of_nat i = count" and "take i ps = ps"
    by (simp_all add: tracked tracked_cells_length)
  then show ?case
    by (subst scratch_reset_loop.simps) simp
next
  case (Suc d)
  then have below: "i < unat count"
    by simp
  have "unat count < 2 ^ 64"
    using unsigned_less [of count] by simp
  with below have index: "unat (of_nat i :: size_t) = i"
    by (simp add: unat_of_nat)
  with below have less: "(of_nat i :: size_t) < count"
    by (simp add: word_less_nat_alt)
  have next_index: "(of_nat i :: size_t) + 1 = of_nat (Suc i)"
    by simp
  let ?s = "release_all (backing, mem) (take i ps)"
  have "word_to_ptr (load64 (snd ?s) (allocations_cell allocations (of_nat i))) = ps ! i"
    using frame below tracked_cells_nth [of i count allocations "snd ?s"] by simp
  then have "scratch_reset_loop (fst ?s) (snd ?s) allocations count (of_nat i)
      = scratch_reset_loop (fst (release_all (backing, mem) (take (Suc i) ps)))
          (snd (release_all (backing, mem) (take (Suc i) ps))) allocations count (of_nat (Suc i))"
    using less below
    by (subst scratch_reset_loop.simps)
      (simp add: release_all_step tracked tracked_cells_length case_prod_beta next_index
         del: of_nat_Suc)
  also have "\<dots> = release_all (backing, mem) ps"
    using Suc.hyps(2) below by (intro Suc.hyps(1)) simp_all
  finally show ?case .
qed

lemma scratch_reset_framed:
  assumes "\<forall>k < unat (scratch_allocation_count scratch).
             scratch_tracked scratch
               (snd (release_all (scratch_backing scratch, mem)
                       (take k (scratch_tracked scratch mem))))
             = scratch_tracked scratch mem"
  shows "scratch_allocator_reset scratch mem =
           (scratch\<lparr>scratch_backing :=
                      fst (release_all (scratch_backing scratch, mem)
                             (scratch_tracked scratch mem)),
                    scratch_allocation_count := 0\<rparr>,
            snd (release_all (scratch_backing scratch, mem) (scratch_tracked scratch mem)))"
proof -
  have "scratch_reset_loop (scratch_backing scratch) mem (scratch_allocations scratch)
          (scratch_allocation_count scratch) 0
        = release_all (scratch_backing scratch, mem) (scratch_tracked scratch mem)"
    using scratch_reset_loop_from
      [of "scratch_tracked scratch mem" "scratch_allocations scratch"
         "scratch_allocation_count scratch" mem "scratch_backing scratch" 0] assms
    by (simp add: scratch_tracked_def release_all_def)
  then show ?thesis
    by (simp add: scratch_allocator_reset_def case_prod_beta)
qed


text \<open>
  The arena and the stack allocator write nothing when they release: over them reset
  releases the tracked pointers in every state.
\<close>

lemma arena_get_free:
  "alloc_free (arena_allocator_get arena) mem ptr sz = (arena_allocator_get arena, mem)"
  by (simp add: alloc_free_def arena_allocator_get_def arena_allocator_free_def)

lemma stack_get_free:
  "alloc_free (stack_allocator_get stack) mem ptr sz
     = (stack_allocator_get (stack_allocator_free stack ptr sz), mem)"
  by (simp add: alloc_free_def stack_allocator_get_def)

lemma arena_release_all_memory:
  "snd (release_all (arena_allocator_get arena, mem) ps) = mem"
proof -
  have "release_all (arena_allocator_get arena, mem) ps = (arena_allocator_get arena, mem)"
    by (induction ps) (simp_all add: release_all_def arena_get_free)
  then show ?thesis
    by simp
qed

lemma stack_release_all_memory:
  "snd (release_all (stack_allocator_get stack, mem) ps) = mem"
proof (induction ps arbitrary: stack)
  case Nil
  then show ?case
    by (simp add: release_all_def)
next
  case (Cons p ps)
  then show ?case
    by (simp add: release_all_def stack_get_free)
qed

lemma scratch_reset_over_arena:
  assumes "scratch_backing scratch = arena_allocator_get arena"
  shows "scratch_allocator_reset scratch mem =
           (scratch\<lparr>scratch_backing :=
                      fst (release_all (scratch_backing scratch, mem)
                             (scratch_tracked scratch mem)),
                    scratch_allocation_count := 0\<rparr>,
            snd (release_all (scratch_backing scratch, mem) (scratch_tracked scratch mem)))"
  by (rule scratch_reset_framed) (simp add: assms arena_release_all_memory)

lemma scratch_reset_over_stack:
  assumes "scratch_backing scratch = stack_allocator_get stack"
  shows "scratch_allocator_reset scratch mem =
           (scratch\<lparr>scratch_backing :=
                      fst (release_all (scratch_backing scratch, mem)
                             (scratch_tracked scratch mem)),
                    scratch_allocation_count := 0\<rparr>,
            snd (release_all (scratch_backing scratch, mem) (scratch_tracked scratch mem)))"
  by (rule scratch_reset_framed) (simp add: assms stack_release_all_memory)


text \<open>
  A scratch allocator over a freelist allocator over 1024 bytes at \<open>0x6000\<close> that
  tracks two blocks of 16 bytes, at \<open>0x6000\<close> and \<open>0x6050\<close>, in the array at
  \<open>0x6010\<close>. The header that the release of the first block writes lies within that
  block, and reset releases the two blocks in their order.
\<close>

lemma scratch_reset_example:
  "(let scratch =
          \<lparr>scratch_backing =
             freelist_allocator_get
               \<lparr>freelist_buffer = 0x6000, freelist_buffer_size = 1024,
                 freelist_free_list = Some 0x6060\<rparr>,
           scratch_allocations = Some 0x6010,
           scratch_allocation_count = 2, scratch_allocation_capacity = 8\<rparr>;
        mem = store64 (store64 (store64 (store64 (store64 (store64 (store64 (store64
                (store64 (store64 (\<lambda>_. 0) 0x6000 1024) 0x6008 0) 0x6010 1008) 0x6018 0)
                0x6050 944) 0x6058 0) 0x6010 0x6000) 0x6060 928) 0x6068 0) 0x6018 0x6050
    in scratch_tracked scratch mem = [Some 0x6000, Some 0x6050]
       \<and> scratch_allocator_reset scratch mem
           = (let (backing', mem') =
                    release_all (scratch_backing scratch, mem) [Some 0x6000, Some 0x6050]
              in (scratch\<lparr>scratch_backing := backing', scratch_allocation_count := 0\<rparr>, mem'))
       \<and> freelist_free_list (ctx (scratch_backing (fst (scratch_allocator_reset scratch mem))))
           = Some 0x6050)"
proof -
  let ?backing = "freelist_allocator_get
      \<lparr>freelist_buffer = 0x6000, freelist_buffer_size = 1024,
        freelist_free_list = Some 0x6060\<rparr>"
  let ?scratch = "\<lparr>scratch_backing = ?backing, scratch_allocations = Some 0x6010,
                    scratch_allocation_count = 2, scratch_allocation_capacity = 8\<rparr>"
  let ?mem = "store64 (store64 (store64 (store64 (store64 (store64 (store64 (store64
                (store64 (store64 (\<lambda>_. 0) 0x6000 1024) 0x6008 0) 0x6010 1008) 0x6018 0)
                0x6050 944) 0x6058 0) 0x6010 0x6000) 0x6060 928) 0x6068 0) 0x6018 0x6050"
  have tracked: "scratch_tracked ?scratch ?mem = [Some 0x6000, Some 0x6050]"
    by (simp add: scratch_tracked_def tracked_cells_def allocations_cell_def upt_rec
          freelist_eval)
  have after_first: "scratch_tracked ?scratch (snd (alloc_free ?backing ?mem (Some 0x6000) 0))
                       = [Some 0x6000, Some 0x6050]"
    by (simp add: scratch_tracked_def tracked_cells_def allocations_cell_def upt_rec
          freelist_backing_eval)
  have "\<forall>k < unat (scratch_allocation_count ?scratch).
          scratch_tracked ?scratch
            (snd (release_all (scratch_backing ?scratch, ?mem)
                    (take k (scratch_tracked ?scratch ?mem))))
          = scratch_tracked ?scratch ?mem"
  proof (intro allI impI)
    fix k :: nat
    assume "k < unat (scratch_allocation_count ?scratch)"
    then consider "k = 0" | "k = 1"
      by fastforce
    then show "scratch_tracked ?scratch
                 (snd (release_all (scratch_backing ?scratch, ?mem)
                         (take k (scratch_tracked ?scratch ?mem))))
               = scratch_tracked ?scratch ?mem"
    proof cases
      case 1
      then show ?thesis
        by (simp add: release_all_def)
    next
      case 2
      then show ?thesis
        unfolding tracked using after_first by (simp add: release_all_def)
    qed
  qed
  from scratch_reset_framed [OF this]
  have reset: "scratch_allocator_reset ?scratch ?mem
      = (?scratch\<lparr>scratch_backing :=
                     fst (release_all (?backing, ?mem) [Some 0x6000, Some 0x6050]),
                   scratch_allocation_count := 0\<rparr>,
         snd (release_all (?backing, ?mem) [Some 0x6000, Some 0x6050]))"
    unfolding tracked by simp
  have head: "freelist_free_list
                (ctx (fst (release_all (?backing, ?mem) [Some 0x6000, Some 0x6050])))
              = Some 0x6050"
    by (simp add: release_all_def freelist_backing_eval freelist_get_ctx case_prod_beta)
  show ?thesis
    unfolding Let_def reset using tracked head by (simp add: case_prod_beta)
qed


text \<open>
  A scratch allocator over a freelist allocator over 1024 bytes at \<open>0x6000\<close>. A request
  for 0 bytes is answered with \<open>0x6000\<close>, the start of the free block, which stays
  free; the array of the tracking sequence, allocated next, starts at \<open>0x6000\<close> as
  well. A request for 8 bytes is answered with \<open>0x6040\<close>.
\<close>

lemma scratch_zero_first:
  "scratch_allocator_alloc
     (scratch_allocator_init
        (freelist_allocator_get
           \<lparr>freelist_buffer = 0x6000, freelist_buffer_size = 1024,
             freelist_free_list = Some 0x6000\<rparr>))
     (store64 (store64 (\<lambda>_. 0) 0x6000 1024) 0x6008 0) 0 8
   = Some (Some 0x6000,
       \<lparr>scratch_backing =
          freelist_allocator_get
            \<lparr>freelist_buffer = 0x6000, freelist_buffer_size = 1024,
              freelist_free_list = Some 0x6040\<rparr>,
        scratch_allocations = Some 0x6000,
        scratch_allocation_count = 1, scratch_allocation_capacity = 8\<rparr>,
       store64 (store64 (store64 (store64 (store64 (store64 (store64 (\<lambda>_. 0)
         0x6000 1024) 0x6008 0) 0x6000 1024) 0x6008 0) 0x6040 960) 0x6048 0) 0x6000 0x6000)"
  by (simp add: scratch_allocator_alloc_def scratch_allocator_init_def allocations_cell_def
        freelist_backing_eval)

lemma capacity_above_one: "\<not> (8 :: size_t) \<le> 1"
  by (simp add: word_le_nat_alt)

lemma scratch_zero_second:
  "scratch_allocator_alloc
     \<lparr>scratch_backing =
        freelist_allocator_get
          \<lparr>freelist_buffer = 0x6000, freelist_buffer_size = 1024,
            freelist_free_list = Some 0x6040\<rparr>,
      scratch_allocations = Some 0x6000,
      scratch_allocation_count = 1, scratch_allocation_capacity = 8\<rparr>
     (store64 (store64 (store64 (store64 (store64 (store64 (store64 (\<lambda>_. 0)
        0x6000 1024) 0x6008 0) 0x6000 1024) 0x6008 0) 0x6040 960) 0x6048 0) 0x6000 0x6000) 8 8
   = Some (Some 0x6040,
       \<lparr>scratch_backing =
          freelist_allocator_get
            \<lparr>freelist_buffer = 0x6000, freelist_buffer_size = 1024,
              freelist_free_list = Some 0x6048\<rparr>,
        scratch_allocations = Some 0x6000,
        scratch_allocation_count = 2, scratch_allocation_capacity = 8\<rparr>,
       store64 (store64 (store64 (store64 (store64 (store64 (store64 (store64 (store64
         (store64 (\<lambda>_. 0)
         0x6000 1024) 0x6008 0) 0x6000 1024) 0x6008 0) 0x6040 960) 0x6048 0) 0x6000 0x6000)
         0x6048 952) 0x6050 0) 0x6008 0x6040)"
  by (simp add: scratch_allocator_alloc_def allocations_cell_def freelist_backing_eval
        capacity_above_one)

lemma scratch_zero_tracked:
  "scratch_tracked
     \<lparr>scratch_backing = b,
      scratch_allocations = Some 0x6000,
      scratch_allocation_count = 2, scratch_allocation_capacity = 8\<rparr>
     (store64 (store64 (store64 (store64 (store64 (store64 (store64 (store64 (store64
         (store64 (\<lambda>_. 0)
         0x6000 1024) 0x6008 0) 0x6000 1024) 0x6008 0) 0x6040 960) 0x6048 0) 0x6000 0x6000)
         0x6048 952) 0x6050 0) 0x6008 0x6040)
   = [Some 0x6000, Some 0x6040]"
  by (simp add: scratch_tracked_def tracked_cells_def allocations_cell_def upt_rec
        word_to_ptr_def ptr_to_word_def load64_store64_same load64_store64_apart apart_def)

lemma scratch_zero_reset:
  "scratch_allocator_reset
     \<lparr>scratch_backing =
        freelist_allocator_get
          \<lparr>freelist_buffer = 0x6000, freelist_buffer_size = 1024,
            freelist_free_list = Some 0x6048\<rparr>,
      scratch_allocations = Some 0x6000,
      scratch_allocation_count = 2, scratch_allocation_capacity = 8\<rparr>
     (store64 (store64 (store64 (store64 (store64 (store64 (store64 (store64 (store64
         (store64 (\<lambda>_. 0)
         0x6000 1024) 0x6008 0) 0x6000 1024) 0x6008 0) 0x6040 960) 0x6048 0) 0x6000 0x6000)
         0x6048 952) 0x6050 0) 0x6008 0x6040)
   = (\<lparr>scratch_backing =
          freelist_allocator_get
            \<lparr>freelist_buffer = 0x6000, freelist_buffer_size = 1024,
              freelist_free_list = Some 0x6048\<rparr>,
        scratch_allocations = Some 0x6000,
        scratch_allocation_count = 0, scratch_allocation_capacity = 8\<rparr>,
      store64 (store64 (store64 (store64
       (store64 (store64 (store64 (store64 (store64 (store64 (store64 (store64 (store64
         (store64 (\<lambda>_. 0)
         0x6000 1024) 0x6008 0) 0x6000 1024) 0x6008 0) 0x6040 960) 0x6048 0) 0x6000 0x6000)
         0x6048 952) 0x6050 0) 0x6008 0x6040)
         0x6000 0) 0x6008 0x6048) 0x6048 0) 0x6050 0x6000)"
  by (simp add: scratch_allocator_reset_def scratch_reset_loop.simps allocations_cell_def
        freelist_backing_eval)


text \<open>
  C10. The scratch allocator's reset() invokes the backing allocator's release once for
  each tracked pointer in issue order, passing 0 (not the allocation's original size) as
  the size argument, then sets the tracked count to 0 while leaving the tracking
  sequence's capacity unchanged.

  In the run above the tracking sequence is \<open>0x6000\<close>, \<open>0x6040\<close>. The release of
  \<open>0x6000\<close> writes the header of a free block, 16 bytes, at \<open>0x6000\<close>: the block has 0
  bytes and the header lands on the first two cells of the array, where the allocation
  path of the freelist allocator makes a free block only where a header has room. The
  loop then reads \<open>0x6048\<close> from the second cell and releases that, an address that
  was never issued; \<open>0x6040\<close> is not released. The free chain ends with \<open>0x6048\<close> at
  its head, where the release of the two tracked pointers would leave \<open>0x6040\<close>.
\<close>

theorem scratch_reset_releases_block_never_issued:
  "(let (freelist, mem0) = freelist_allocator_init 0x6000 1024 (\<lambda>_. 0);
        scratch0 = scratch_allocator_init (freelist_allocator_get freelist)
    in case scratch_allocator_alloc scratch0 mem0 0 8 of
         None \<Rightarrow> False
       | Some (p1, scratch1, mem1) \<Rightarrow>
           (case scratch_allocator_alloc scratch1 mem1 8 8 of
              None \<Rightarrow> False
            | Some (p2, scratch2, mem2) \<Rightarrow>
                p1 = Some 0x6000 \<and> p2 = Some 0x6040
                \<and> scratch_tracked scratch2 mem2 = [Some 0x6000, Some 0x6040]
                \<and> scratch_tracked scratch2
                     (snd (alloc_free (scratch_backing scratch2) mem2 (Some 0x6000) 0))
                   = [None, Some 0x6048]
                \<and> scratch_allocator_reset scratch2 mem2
                   = (let (backing', mem') =
                            release_all (scratch_backing scratch2, mem2)
                              [Some 0x6000, Some 0x6048]
                      in (scratch2\<lparr>scratch_backing := backing',
                                   scratch_allocation_count := 0\<rparr>, mem'))
                \<and> freelist_free_list
                     (ctx (scratch_backing (fst (scratch_allocator_reset scratch2 mem2))))
                   = Some 0x6048
                \<and> freelist_free_list
                     (ctx (fst (release_all (scratch_backing scratch2, mem2)
                                  [Some 0x6000, Some 0x6040])))
                   = Some 0x6040))"
proof -
  let ?scratch2 =
    "\<lparr>scratch_backing =
        freelist_allocator_get
          \<lparr>freelist_buffer = 0x6000, freelist_buffer_size = 1024,
            freelist_free_list = Some 0x6048\<rparr>,
      scratch_allocations = Some 0x6000,
      scratch_allocation_count = 2, scratch_allocation_capacity = 8\<rparr>"
  let ?mem2 =
    "store64 (store64 (store64 (store64 (store64 (store64 (store64 (store64 (store64
       (store64 (\<lambda>_. 0)
       0x6000 1024) 0x6008 0) 0x6000 1024) 0x6008 0) 0x6040 960) 0x6048 0) 0x6000 0x6000)
       0x6048 952) 0x6050 0) 0x6008 0x6040"
  let ?backing2 =
    "freelist_allocator_get
       \<lparr>freelist_buffer = 0x6000, freelist_buffer_size = 1024,
         freelist_free_list = Some 0x6048\<rparr>"
  have first_release:
    "scratch_tracked ?scratch2 (snd (alloc_free ?backing2 ?mem2 (Some 0x6000) 0))
       = [None, Some 0x6048]"
    by (simp add: scratch_tracked_def tracked_cells_def allocations_cell_def upt_rec
          freelist_backing_eval)
  have released:
    "release_all (?backing2, ?mem2) [Some 0x6000, Some 0x6048]
       = (freelist_allocator_get
            \<lparr>freelist_buffer = 0x6000, freelist_buffer_size = 1024,
              freelist_free_list = Some 0x6048\<rparr>,
          store64 (store64 (store64 (store64 ?mem2 0x6000 0) 0x6008 0x6048) 0x6048 0)
            0x6050 0x6000)"
    by (simp add: release_all_def freelist_backing_eval)
  have claimed:
    "freelist_free_list
       (ctx (fst (release_all (?backing2, ?mem2) [Some 0x6000, Some 0x6040])))
     = Some 0x6040"
    by (simp add: release_all_def freelist_backing_eval freelist_get_ctx case_prod_beta)
  show ?thesis
    by (simp add: freelist_init_eval scratch_zero_first scratch_zero_second scratch_zero_tracked scratch_zero_reset
          first_release released claimed freelist_get_ctx)
qed

section \<open>Scratch: allocation and tracking\<close>





text \<open>
  When the backing allocator has nothing to give, the call fails at once; when its call
  does not return, neither does the call of the scratch allocator.
\<close>

lemma scratch_alloc_backing_failure:
  assumes "alloc_alloc (scratch_backing scratch) mem sz alignment = Some (None, backing1, mem1)"
  shows "scratch_allocator_alloc scratch mem sz alignment
           = Some (None, scratch\<lparr>scratch_backing := backing1\<rparr>, mem1)"
  using assms by (simp add: scratch_allocator_alloc_def)

lemma scratch_alloc_backing_hangs:
  assumes "alloc_alloc (scratch_backing scratch) mem sz alignment = None"
  shows "scratch_allocator_alloc scratch mem sz alignment = None"
  using assms by (simp add: scratch_allocator_alloc_def)

text \<open>
  The arena, the stack and the pool allocator write nothing when they allocate, so over
  them the allocation leaves the cells of the array as they are.
\<close>

lemma arena_get_alloc_memory:
  "alloc_alloc (arena_allocator_get arena) mem sz alignment = Some (p, backing', mem')
   \<Longrightarrow> mem' = mem"
  by (auto simp add: alloc_alloc_def arena_allocator_get_def split: prod.splits)

lemma stack_get_alloc_memory:
  "alloc_alloc (stack_allocator_get stack) mem sz alignment = Some (p, backing', mem')
   \<Longrightarrow> mem' = mem"
  by (auto simp add: alloc_alloc_def stack_allocator_get_def split: prod.splits)

lemma pool_get_alloc_memory:
  "alloc_alloc (pool_allocator_get pool) mem sz alignment = Some (p, backing', mem')
   \<Longrightarrow> mem' = mem"
  by (auto simp add: alloc_alloc_def pool_allocator_get_def split: prod.splits)





section \<open>Failed reallocation\<close>

text \<open>
  A reallocation of a non-null pointer that returns the null pointer has changed neither
  the allocator nor the memory. For the freelist allocator the search loop writes only on
  the path that returns a block.
\<close>

lemma arena_realloc_failure:
  "arena_allocator_realloc arena mem (Some p) old_size new_size alignment = (None, arena', mem')
   \<Longrightarrow> arena' = arena \<and> mem' = mem"
  by (auto simp add: arena_allocator_realloc_def arena_allocator_alloc_def Let_def
        split: if_splits)

lemma stack_realloc_failure:
  "stack_allocator_realloc stack mem (Some p) old_size new_size alignment = (None, stack', mem')
   \<Longrightarrow> stack' = stack \<and> mem' = mem"
  by (auto simp add: stack_allocator_realloc_def stack_allocator_alloc_def Let_def
        split: if_splits)

lemma pool_realloc_failure:
  "pool_allocator_realloc pool mem (Some p) old_size new_size alignment = (None, pool', mem')
   \<Longrightarrow> pool' = pool \<and> mem' = mem"
  by (auto simp add: pool_allocator_realloc_def pool_allocator_alloc_def pool_allocator_free_def
        Let_def split: if_splits option.splits)

lemma freelist_alloc_loop_failure:
  assumes "freelist_alloc_loop freelist mem sz alignment total_size prev_ptr node = Some r"
  shows "fst r = None \<longrightarrow> r = (None, freelist, mem)"
  by (rule freelist_alloc_loop.raw_induct
        [where P = "\<lambda>fl m _ _ _ _ _ y. fst y = None \<longrightarrow> y = (None, fl, m)", OF _ assms])
    (auto simp add: Let_def split: option.splits if_splits prod.splits)

lemma freelist_alloc_failure:
  "freelist_allocator_alloc freelist mem sz alignment = Some (None, freelist', mem')
   \<Longrightarrow> freelist' = freelist \<and> mem' = mem"
  using freelist_alloc_loop_failure
    [of freelist mem sz alignment "sz + alignment - 1" Head_link "freelist_free_list freelist"
       "(None, freelist', mem')"]
  by (simp add: freelist_allocator_alloc_def)

lemma freelist_realloc_failure:
  "freelist_allocator_realloc freelist mem (Some p) old_size new_size alignment
     = Some (None, freelist', mem')
   \<Longrightarrow> freelist' = freelist \<and> mem' = mem"
  using freelist_alloc_failure [of freelist mem new_size alignment]
  by (auto simp add: freelist_allocator_realloc_def Let_def
        split: option.splits prod.splits)

text \<open>
  The scratch allocator hands the call to its backing allocator and, when that fails,
  touches neither its fields nor the memory.
\<close>

lemma scratch_realloc_failure:
  assumes "scratch_allocator_realloc scratch mem (Some p) old_size new_size alignment
             = Some (None, scratch', mem')"
  shows "alloc_realloc (scratch_backing scratch) mem (Some p) old_size new_size alignment
           = Some (None, scratch_backing scratch', mem')
         \<and> scratch' = scratch\<lparr>scratch_backing := scratch_backing scratch'\<rparr>"
  using assms
  by (auto simp add: scratch_allocator_realloc_def split: option.splits prod.splits)

text \<open>
  The handles of the four strategies over a buffer, as backing allocators: their failed
  reallocate leaves the handle and the memory as they were, and so the scratch allocator
  over them.
\<close>

lemma arena_get_realloc_failure:
  assumes "alloc_realloc (arena_allocator_get arena) mem (Some p) old_size new_size alignment
             = Some (None, backing', mem')"
  shows "backing' = arena_allocator_get arena \<and> mem' = mem"
  using assms arena_realloc_failure [of arena mem p old_size new_size alignment]
  by (auto simp add: alloc_realloc_def arena_allocator_get_def split: prod.splits)

lemma stack_get_realloc_failure:
  assumes "alloc_realloc (stack_allocator_get stack) mem (Some p) old_size new_size alignment
             = Some (None, backing', mem')"
  shows "backing' = stack_allocator_get stack \<and> mem' = mem"
  using assms stack_realloc_failure [of stack mem p old_size new_size alignment]
  by (auto simp add: alloc_realloc_def stack_allocator_get_def split: prod.splits)

lemma pool_get_realloc_failure:
  assumes "alloc_realloc (pool_allocator_get pool) mem (Some p) old_size new_size alignment
             = Some (None, backing', mem')"
  shows "backing' = pool_allocator_get pool \<and> mem' = mem"
  using assms pool_realloc_failure [of pool mem p old_size new_size alignment]
  by (auto simp add: alloc_realloc_def pool_allocator_get_def split: prod.splits)

lemma freelist_get_realloc_failure:
  assumes "alloc_realloc (freelist_allocator_get freelist) mem (Some p) old_size new_size
             alignment = Some (None, backing', mem')"
  shows "backing' = freelist_allocator_get freelist \<and> mem' = mem"
  using assms freelist_realloc_failure [of freelist mem p old_size new_size alignment]
  by (auto simp add: alloc_realloc_def freelist_allocator_get_def
        split: option.splits prod.splits)

lemma scratch_realloc_failure_whole_state:
  assumes failed: "scratch_allocator_realloc scratch mem (Some p) old_size new_size alignment
                     = Some (None, scratch', mem')"
    and backing: "\<And>backing'. alloc_realloc (scratch_backing scratch) mem (Some p) old_size
                     new_size alignment = Some (None, backing', mem')
                   \<Longrightarrow> backing' = scratch_backing scratch \<and> mem' = mem"
  shows "scratch' = scratch \<and> mem' = mem"
proof -
  from scratch_realloc_failure [OF failed]
  have call: "alloc_realloc (scratch_backing scratch) mem (Some p) old_size new_size alignment
                = Some (None, scratch_backing scratch', mem')"
    and fields: "scratch' = scratch\<lparr>scratch_backing := scratch_backing scratch'\<rparr>"
    by simp_all
  from backing [OF call] have "scratch_backing scratch' = scratch_backing scratch" "mem' = mem"
    by simp_all
  with fields show ?thesis
    by (metis scratch_allocator.surjective scratch_allocator.update_convs(1))
qed

text \<open>
  C2. For every strategy, whenever reallocate(ptr, old_size, new_size, alignment) fails
  with ptr non-null, the original allocation is not released and its content is
  unchanged: the allocator's state regarding ptr's block (free chain, cursor, tracking
  sequence) is the same after the failed call as before it.

  For the arena, the stack, the pool and the freelist allocator the whole state and the
  whole memory are the same. The scratch allocator hands the call to its backing
  allocator: the array, the count and the capacity are the same, the scratch allocator
  has written nothing, and the backing allocator and the memory are as the backing
  allocator's failed reallocate left them. Over each of the four strategies as backing
  allocator that is: the scratch allocator and the whole memory, the cells of the
  tracking sequence among it, are the same.
\<close>

theorem realloc_failure_keeps_state:
  "(arena_allocator_realloc arena mem (Some p) old_size new_size alignment = (None, arena', mem')
      \<longrightarrow> arena' = arena \<and> mem' = mem)
   \<and> (stack_allocator_realloc stack mem (Some p) old_size new_size alignment = (None, stack', mem')
      \<longrightarrow> stack' = stack \<and> mem' = mem)
   \<and> (pool_allocator_realloc pool mem (Some p) old_size new_size alignment = (None, pool', mem')
      \<longrightarrow> pool' = pool \<and> mem' = mem)
   \<and> (freelist_allocator_realloc freelist mem (Some p) old_size new_size alignment
        = Some (None, freelist', mem')
      \<longrightarrow> freelist' = freelist \<and> mem' = mem)
   \<and> (scratch_allocator_realloc scratch mem (Some p) old_size new_size alignment
        = Some (None, scratch', mem')
      \<longrightarrow> alloc_realloc (scratch_backing scratch) mem (Some p) old_size new_size alignment
            = Some (None, scratch_backing scratch', mem')
          \<and> scratch' = scratch\<lparr>scratch_backing := scratch_backing scratch'\<rparr>
          \<and> scratch_tracked scratch' mem' = scratch_tracked scratch mem'
          \<and> scratch_allocations scratch' = scratch_allocations scratch
          \<and> scratch_allocation_count scratch' = scratch_allocation_count scratch
          \<and> scratch_allocation_capacity scratch' = scratch_allocation_capacity scratch)
   \<and> (scratch_backing over_arena = arena_allocator_get arena
       \<and> scratch_allocator_realloc over_arena mem (Some p) old_size new_size alignment
           = Some (None, over_arena', mem')
      \<longrightarrow> over_arena' = over_arena \<and> mem' = mem)
   \<and> (scratch_backing over_stack = stack_allocator_get stack
       \<and> scratch_allocator_realloc over_stack mem (Some p) old_size new_size alignment
           = Some (None, over_stack', mem')
      \<longrightarrow> over_stack' = over_stack \<and> mem' = mem)
   \<and> (scratch_backing over_pool = pool_allocator_get pool
       \<and> scratch_allocator_realloc over_pool mem (Some p) old_size new_size alignment
           = Some (None, over_pool', mem')
      \<longrightarrow> over_pool' = over_pool \<and> mem' = mem)
   \<and> (scratch_backing over_freelist = freelist_allocator_get freelist
       \<and> scratch_allocator_realloc over_freelist mem (Some p) old_size new_size alignment
           = Some (None, over_freelist', mem')
      \<longrightarrow> over_freelist' = over_freelist \<and> mem' = mem)"
proof (intro conjI impI)
  assume failed: "scratch_allocator_realloc scratch mem (Some p) old_size new_size alignment
                    = Some (None, scratch', mem')"
  from scratch_realloc_failure [OF failed]
  show "alloc_realloc (scratch_backing scratch) mem (Some p) old_size new_size alignment
          = Some (None, scratch_backing scratch', mem')"
    and fields: "scratch' = scratch\<lparr>scratch_backing := scratch_backing scratch'\<rparr>"
    by simp_all
  have "scratch_allocations scratch'
          = scratch_allocations (scratch\<lparr>scratch_backing := scratch_backing scratch'\<rparr>)"
    "scratch_allocation_count scratch'
          = scratch_allocation_count (scratch\<lparr>scratch_backing := scratch_backing scratch'\<rparr>)"
    "scratch_allocation_capacity scratch'
          = scratch_allocation_capacity (scratch\<lparr>scratch_backing := scratch_backing scratch'\<rparr>)"
    using fields by simp_all
  then show "scratch_allocations scratch' = scratch_allocations scratch"
    "scratch_allocation_count scratch' = scratch_allocation_count scratch"
    "scratch_allocation_capacity scratch' = scratch_allocation_capacity scratch"
    by simp_all
  then show "scratch_tracked scratch' mem' = scratch_tracked scratch mem'"
    by (simp add: scratch_tracked_def)
next
  assume "scratch_backing over_arena = arena_allocator_get arena
       \<and> scratch_allocator_realloc over_arena mem (Some p) old_size new_size alignment
           = Some (None, over_arena', mem')"
  then have "over_arena' = over_arena \<and> mem' = mem"
    using scratch_realloc_failure_whole_state [of over_arena mem p old_size new_size alignment
        over_arena' mem'] arena_get_realloc_failure [of arena mem p old_size new_size alignment]
    by simp
  then show "over_arena' = over_arena" "mem' = mem"
    by simp_all
next
  assume "scratch_backing over_stack = stack_allocator_get stack
       \<and> scratch_allocator_realloc over_stack mem (Some p) old_size new_size alignment
           = Some (None, over_stack', mem')"
  then have "over_stack' = over_stack \<and> mem' = mem"
    using scratch_realloc_failure_whole_state [of over_stack mem p old_size new_size alignment
        over_stack' mem'] stack_get_realloc_failure [of stack mem p old_size new_size alignment]
    by simp
  then show "over_stack' = over_stack" "mem' = mem"
    by simp_all
next
  assume "scratch_backing over_pool = pool_allocator_get pool
       \<and> scratch_allocator_realloc over_pool mem (Some p) old_size new_size alignment
           = Some (None, over_pool', mem')"
  then have "over_pool' = over_pool \<and> mem' = mem"
    using scratch_realloc_failure_whole_state [of over_pool mem p old_size new_size alignment
        over_pool' mem'] pool_get_realloc_failure [of pool mem p old_size new_size alignment]
    by simp
  then show "over_pool' = over_pool" "mem' = mem"
    by simp_all
next
  assume "scratch_backing over_freelist = freelist_allocator_get freelist
       \<and> scratch_allocator_realloc over_freelist mem (Some p) old_size new_size alignment
           = Some (None, over_freelist', mem')"
  then have "over_freelist' = over_freelist \<and> mem' = mem"
    using scratch_realloc_failure_whole_state [of over_freelist mem p old_size new_size
        alignment over_freelist' mem']
      freelist_get_realloc_failure [of freelist mem p old_size new_size alignment]
    by simp
  then show "over_freelist' = over_freelist" "mem' = mem"
    by simp_all
qed (auto dest: arena_realloc_failure stack_realloc_failure pool_realloc_failure
       freelist_realloc_failure)


text \<open>
  A failing reallocation of a live pointer for each strategy: too large for what is left
  of the arena and of the stack, larger than the pool's chunks, larger than the only free
  block of the freelist allocator; and the same calls through a scratch allocator over
  each of them, the one over the freelist allocator tracking two pointers.
\<close>

theorem realloc_failure_keeps_state_witness:
  "(let arena = \<lparr>arena_buffer = 0x1000, arena_buffer_size = 1024, arena_offset = 8\<rparr>
    in arena_allocator_realloc arena (\<lambda>_. 0) (Some 0x1000) 4 2000 4 = (None, arena, \<lambda>_. 0)
       \<and> scratch_allocator_realloc (scratch_allocator_init (arena_allocator_get arena))
            (\<lambda>_. 0) (Some 0x1000) 4 2000 4
           = Some (None, scratch_allocator_init (arena_allocator_get arena), \<lambda>_. 0))
   \<and> (let stack = \<lparr>stack_buffer = 0x2000, stack_buffer_size = 512, stack_offset = 8\<rparr>
      in stack_allocator_realloc stack (\<lambda>_. 0) (Some 0x2000) 4 2000 4 = (None, stack, \<lambda>_. 0)
         \<and> scratch_allocator_realloc (scratch_allocator_init (stack_allocator_get stack))
              (\<lambda>_. 0) (Some 0x2000) 4 2000 4
             = Some (None, scratch_allocator_init (stack_allocator_get stack), \<lambda>_. 0))
   \<and> (let (pool, mem) = pool_allocator_init 0x1000 32 8 (\<lambda>_. 0)
      in pool_allocator_realloc pool mem (Some 0x1000) 32 64 8 = (None, pool, mem)
         \<and> scratch_allocator_realloc (scratch_allocator_init (pool_allocator_get pool))
              mem (Some 0x1000) 32 64 8
             = Some (None, scratch_allocator_init (pool_allocator_get pool), mem))
   \<and> (let (freelist, mem) = freelist_allocator_init 0x6000 1024 (\<lambda>_. 0)
      in freelist_allocator_realloc freelist mem (Some 0x7000) 16 4096 8
           = Some (None, freelist, mem))
   \<and> (let scratch =
            \<lparr>scratch_backing =
               freelist_allocator_get
                 \<lparr>freelist_buffer = 0x6000, freelist_buffer_size = 1024,
                   freelist_free_list = Some 0x6060\<rparr>,
             scratch_allocations = Some 0x6010,
             scratch_allocation_count = 2, scratch_allocation_capacity = 8\<rparr>;
          mem = store64 (store64 (store64 (store64 (store64 (store64 (store64 (store64
                  (store64 (store64 (\<lambda>_. 0) 0x6000 1024) 0x6008 0) 0x6010 1008) 0x6018 0)
                  0x6050 944) 0x6058 0) 0x6010 0x6000) 0x6060 928) 0x6068 0) 0x6018 0x6050
      in scratch_tracked scratch mem = [Some 0x6000, Some 0x6050]
         \<and> scratch_allocator_realloc scratch mem (Some 0x6000) 16 4096 8
             = Some (None, scratch, mem))"
proof -
  let ?arena = "\<lparr>arena_buffer = 0x1000, arena_buffer_size = 1024, arena_offset = 8\<rparr>"
  let ?stack = "\<lparr>stack_buffer = 0x2000, stack_buffer_size = 512, stack_offset = 8\<rparr>"
  let ?pool = "fst (pool_allocator_init 0x1000 32 8 (\<lambda>_. 0))"
  let ?pmem = "snd (pool_allocator_init 0x1000 32 8 (\<lambda>_. 0))"
  let ?freelist = "fst (freelist_allocator_init 0x6000 1024 (\<lambda>_. 0))"
  let ?fmem = "snd (freelist_allocator_init 0x6000 1024 (\<lambda>_. 0))"
  let ?over_arena = "scratch_allocator_init (arena_allocator_get ?arena)"
  let ?over_stack = "scratch_allocator_init (stack_allocator_get ?stack)"
  let ?over_pool = "scratch_allocator_init (pool_allocator_get ?pool)"
  let ?over_freelist =
    "\<lparr>scratch_backing =
        freelist_allocator_get
          \<lparr>freelist_buffer = 0x6000, freelist_buffer_size = 1024,
            freelist_free_list = Some 0x6060\<rparr>,
      scratch_allocations = Some 0x6010,
      scratch_allocation_count = 2, scratch_allocation_capacity = 8\<rparr>"
  let ?smem = "store64 (store64 (store64 (store64 (store64 (store64 (store64 (store64
                  (store64 (store64 (\<lambda>_. 0) 0x6000 1024) 0x6008 0) 0x6010 1008) 0x6018 0)
                  0x6050 944) 0x6058 0) 0x6010 0x6000) 0x6060 928) 0x6068 0) 0x6018 0x6050"
  obtain arena' amem where arena:
    "arena_allocator_realloc ?arena (\<lambda>_. 0) (Some 0x1000) 4 2000 4 = (None, arena', amem)"
    by (simp add: arena_allocator_realloc_def arena_allocator_alloc_def align_forward_def)
  obtain stack' smem where stack:
    "stack_allocator_realloc ?stack (\<lambda>_. 0) (Some 0x2000) 4 2000 4 = (None, stack', smem)"
    by (simp add: stack_allocator_realloc_def stack_allocator_alloc_def align_forward_def)
  obtain pool' pmem' where pool:
    "pool_allocator_realloc ?pool ?pmem (Some 0x1000) 32 64 8 = (None, pool', pmem')"
    by (simp add: pool_allocator_realloc_def pool_allocator_alloc_def pool_init_eval)
  obtain freelist' fmem' where freelist:
    "freelist_allocator_realloc ?freelist ?fmem (Some 0x7000) 16 4096 8
       = Some (None, freelist', fmem')"
    by (simp add: freelist_allocator_realloc_def freelist_allocator_alloc_def
          freelist_init_eval freelist_alloc_loop.simps freelist_init_node)
  obtain over_arena' oamem where over_arena:
    "scratch_allocator_realloc ?over_arena (\<lambda>_. 0) (Some 0x1000) 4 2000 4
       = Some (None, over_arena', oamem)"
    by (simp add: scratch_allocator_realloc_def scratch_allocator_init_def alloc_realloc_def
          arena_allocator_get_def arena_allocator_realloc_def arena_allocator_alloc_def
          align_forward_def)
  obtain over_stack' osmem where over_stack:
    "scratch_allocator_realloc ?over_stack (\<lambda>_. 0) (Some 0x2000) 4 2000 4
       = Some (None, over_stack', osmem)"
    by (simp add: scratch_allocator_realloc_def scratch_allocator_init_def alloc_realloc_def
          stack_allocator_get_def stack_allocator_realloc_def stack_allocator_alloc_def
          align_forward_def)
  obtain over_pool' opmem where over_pool:
    "scratch_allocator_realloc ?over_pool ?pmem (Some 0x1000) 32 64 8
       = Some (None, over_pool', opmem)"
    by (simp add: scratch_allocator_realloc_def scratch_allocator_init_def alloc_realloc_def
          pool_allocator_get_def pool_allocator_realloc_def pool_allocator_alloc_def
          pool_init_eval)
  obtain over_freelist' ofmem where over_freelist:
    "scratch_allocator_realloc ?over_freelist ?smem (Some 0x6000) 16 4096 8
       = Some (None, over_freelist', ofmem)"
    by (simp add: scratch_allocator_realloc_def freelist_backing_eval)
  have tracked: "scratch_tracked ?over_freelist ?smem = [Some 0x6000, Some 0x6050]"
    by (simp add: scratch_tracked_def tracked_cells_def allocations_cell_def upt_rec
          freelist_eval)
  have "arena' = ?arena \<and> amem = (\<lambda>_. 0)"
    using realloc_failure_keeps_state [THEN conjunct1, THEN mp, OF arena] .
  moreover have "stack' = ?stack \<and> smem = (\<lambda>_. 0)"
    using realloc_failure_keeps_state [THEN conjunct2, THEN conjunct1, THEN mp, OF stack] .
  moreover have "pool' = ?pool \<and> pmem' = ?pmem"
    using realloc_failure_keeps_state
      [THEN conjunct2, THEN conjunct2, THEN conjunct1, THEN mp, OF pool] .
  moreover have "freelist' = ?freelist \<and> fmem' = ?fmem"
    using realloc_failure_keeps_state
      [THEN conjunct2, THEN conjunct2, THEN conjunct2, THEN conjunct1, THEN mp, OF freelist] .
  moreover have "scratch_allocation_count over_freelist' = 2
      \<and> scratch_tracked over_freelist' ofmem = scratch_tracked ?over_freelist ofmem"
    using realloc_failure_keeps_state
      [THEN conjunct2, THEN conjunct2, THEN conjunct2, THEN conjunct2, THEN conjunct1,
       THEN mp, OF over_freelist]
    by simp
  moreover have "over_arena' = ?over_arena \<and> oamem = (\<lambda>_. 0)"
    using realloc_failure_keeps_state
      [THEN conjunct2, THEN conjunct2, THEN conjunct2, THEN conjunct2, THEN conjunct2,
       THEN conjunct1, THEN mp, OF conjI [OF _ over_arena], of ?arena]
    by (simp add: scratch_allocator_init_def)
  moreover have "over_stack' = ?over_stack \<and> osmem = (\<lambda>_. 0)"
    using realloc_failure_keeps_state
      [THEN conjunct2, THEN conjunct2, THEN conjunct2, THEN conjunct2, THEN conjunct2,
       THEN conjunct2, THEN conjunct1, THEN mp, OF conjI [OF _ over_stack], of ?stack]
    by (simp add: scratch_allocator_init_def)
  moreover have "over_pool' = ?over_pool \<and> opmem = ?pmem"
    using realloc_failure_keeps_state
      [THEN conjunct2, THEN conjunct2, THEN conjunct2, THEN conjunct2, THEN conjunct2,
       THEN conjunct2, THEN conjunct2, THEN conjunct1, THEN mp, OF conjI [OF _ over_pool],
       of ?pool]
    by (simp add: scratch_allocator_init_def)
  moreover have "over_freelist' = ?over_freelist \<and> ofmem = ?smem"
    using realloc_failure_keeps_state
      [THEN conjunct2, THEN conjunct2, THEN conjunct2, THEN conjunct2, THEN conjunct2,
       THEN conjunct2, THEN conjunct2, THEN conjunct2, THEN mp, OF conjI [OF _ over_freelist],
       of "\<lparr>freelist_buffer = 0x6000, freelist_buffer_size = 1024,
             freelist_free_list = Some 0x6060\<rparr>"]
    by simp
  ultimately show ?thesis
    using arena stack pool freelist over_arena over_stack over_pool over_freelist tracked
    by (simp add: case_prod_beta)
qed

section \<open>Freelist: first fit and splitting\<close>

text \<open>
  The search loop passes over the blocks that fail its test without writing anything, and
  stops at the first block that passes.
\<close>

lemma freelist_loop_skip:
  assumes "freelist_chain mem p (skipped @ ns)"
    and "\<forall>n \<in> set skipped. \<not> freelist_takes mem sz alignment n"
  shows "\<exists>q. freelist_chain mem q ns
           \<and> freelist_alloc_loop freelist mem sz alignment (sz + alignment - 1) prev_ptr p
             = freelist_alloc_loop freelist mem sz alignment (sz + alignment - 1)
                 (if skipped = [] then prev_ptr else Next_link (last skipped)) q"
  using assms
proof (induction skipped arbitrary: p prev_ptr)
  case Nil
  then show ?case by auto
next
  case (Cons n skipped)
  then have p: "p = Some n" and rest: "freelist_chain mem (node_next mem n) (skipped @ ns)"
    and skip: "\<not> freelist_takes mem sz alignment n"
    and skips: "\<forall>n \<in> set skipped. \<not> freelist_takes mem sz alignment n"
    by simp_all
  from Cons.IH [OF rest skips, of "Next_link n"]
  obtain q where q: "freelist_chain mem q ns"
    and walk: "freelist_alloc_loop freelist mem sz alignment (sz + alignment - 1)
                 (Next_link n) (node_next mem n)
               = freelist_alloc_loop freelist mem sz alignment (sz + alignment - 1)
                   (if skipped = [] then Next_link n else Next_link (last skipped)) q"
    by blast
  have "freelist_alloc_loop freelist mem sz alignment (sz + alignment - 1) prev_ptr p
          = freelist_alloc_loop freelist mem sz alignment (sz + alignment - 1)
              (Next_link n) (node_next mem n)"
    using skip unfolding p
    by (subst freelist_alloc_loop.simps) (auto simp add: freelist_takes_def Let_def)
  with q walk show ?case
    by auto
qed

lemma freelist_alloc_none_fits:
  assumes "freelist_chain mem (freelist_free_list freelist) ns"
    and "\<forall>n \<in> set ns. \<not> freelist_takes mem sz alignment n"
  shows "freelist_allocator_alloc freelist mem sz alignment = Some (None, freelist, mem)"
proof -
  from freelist_loop_skip [of mem "freelist_free_list freelist" ns "[]" sz alignment freelist
      Head_link] assms
  have "freelist_allocator_alloc freelist mem sz alignment
          = freelist_alloc_loop freelist mem sz alignment (sz + alignment - 1)
              (if ns = [] then Head_link else Next_link (last ns)) None"
    by (simp add: freelist_allocator_alloc_def)
  then show ?thesis
    by (simp add: freelist_alloc_loop.simps)
qed

lemma freelist_alloc_takes_first:
  assumes chain: "freelist_chain mem (freelist_free_list freelist) (skipped @ a # rest)"
    and skipped: "\<forall>n \<in> set skipped. \<not> freelist_takes mem sz alignment n"
    and taken: "freelist_takes mem sz alignment a"
  shows "freelist_allocator_alloc freelist mem sz alignment =
     (let padding = align_forward a alignment - a;
          (freelist1, mem1) =
            store_link freelist mem
              (if skipped = [] then Head_link else Next_link (last skipped)) (node_next mem a)
      in if node_size mem1 a > sz + alignment - 1 + 16
         then
           (let new_node = a + sz + padding;
                mem2 = store64 mem1 new_node (node_size mem1 a - (sz + padding));
                mem3 = store64 mem2 (new_node + 8) (ptr_to_word (freelist_free_list freelist1))
            in Some (Some (align_forward a alignment),
                     freelist1\<lparr>freelist_free_list := Some new_node\<rparr>, mem3))
         else Some (Some (align_forward a alignment), freelist1, mem1))"
proof -
  from freelist_loop_skip [OF chain skipped, of freelist Head_link]
  have "freelist_allocator_alloc freelist mem sz alignment
          = freelist_alloc_loop freelist mem sz alignment (sz + alignment - 1)
              (if skipped = [] then Head_link else Next_link (last skipped)) (Some a)"
    by (auto simp add: freelist_allocator_alloc_def)
  also have "\<dots> =
     (let padding = align_forward a alignment - a;
          (freelist1, mem1) =
            store_link freelist mem
              (if skipped = [] then Head_link else Next_link (last skipped)) (node_next mem a)
      in if node_size mem1 a > sz + alignment - 1 + 16
         then
           (let new_node = a + sz + padding;
                mem2 = store64 mem1 new_node (node_size mem1 a - (sz + padding));
                mem3 = store64 mem2 (new_node + 8) (ptr_to_word (freelist_free_list freelist1))
            in Some (Some (align_forward a alignment),
                     freelist1\<lparr>freelist_free_list := Some new_node\<rparr>, mem3))
         else Some (Some (align_forward a alignment), freelist1, mem1))"
    using taken
    by (subst freelist_alloc_loop.simps) (simp add: freelist_takes_def Let_def)
  finally show ?thesis .
qed


text \<open>On a chain that ends, the search returns.\<close>

lemma freelist_alloc_returns:
  assumes "freelist_chain mem (freelist_free_list freelist) ns"
  shows "\<exists>r. freelist_allocator_alloc freelist mem sz alignment = Some r"
proof (cases "\<forall>n \<in> set ns. \<not> freelist_takes mem sz alignment n")
  case True
  with assms show ?thesis
    by (simp add: freelist_alloc_none_fits)
next
  case False
  then obtain skipped a rest where "ns = skipped @ a # rest"
    and "freelist_takes mem sz alignment a"
    and "\<forall>n \<in> set skipped. \<not> freelist_takes mem sz alignment n"
    using split_list_first_prop [of ns "freelist_takes mem sz alignment"] by auto
  with assms show ?thesis
    by (simp add: freelist_alloc_takes_first Let_def case_prod_beta)
qed


text \<open>
  In plain numbers. The padding is at most alignment - 1; so when
  size + alignment - 1 + 16 is a \<^verbatim>\<open>size_t\<close>, the sums of the code do not wrap around, a
  block passes the test of the loop exactly when its size is at least
  size + alignment - 1, and the remainder is the block's size less size + padding.
\<close>

lemma align_padding_unat:
  assumes "alignment \<noteq> 0"
  shows "unat (align_forward a alignment - a) \<le> unat alignment - 1"
proof (cases "a AND (alignment - 1) = 0")
  case True
  then show ?thesis
    by (simp add: align_forward_def)
next
  case False
  define modulo where "modulo = a AND (alignment - 1)"
  have "modulo \<le> alignment - 1"
    unfolding modulo_def by (rule word_and_le1)
  then have "unat modulo \<le> unat (alignment - 1)"
    by (simp add: word_le_nat_alt)
  moreover have "unat (alignment - 1) = unat alignment - 1"
    using assms by (simp add: unat_minus_one)
  moreover have "0 < unat modulo"
    using False by (simp add: modulo_def unat_gt_0)
  moreover have "0 < unat alignment"
    using assms by (simp add: unat_gt_0)
  ultimately have bounds: "0 < unat modulo" "unat modulo \<le> unat alignment"
    by linarith+
  then have "modulo \<le> alignment"
    by (simp add: word_le_nat_alt)
  then have "unat (alignment - modulo) = unat alignment - unat modulo"
    by (simp add: unat_sub)
  moreover have "align_forward a alignment - a = alignment - modulo"
    using False by (simp add: align_forward_def modulo_def)
  ultimately show ?thesis
    using bounds by simp
qed

lemma freelist_sums_unat:
  assumes alignment: "alignment \<noteq> 0"
    and no_overflow: "unat sz + unat alignment + 15 < 2 ^ 64"
  shows "unat (sz + alignment - 1) = unat sz + unat alignment - 1"
    and "unat (sz + alignment - 1 + 16) = unat sz + unat alignment - 1 + 16"
    and "unat (sz + (align_forward a alignment - a))
           = unat sz + unat (align_forward a alignment - a)"
proof -
  have positive: "0 < unat alignment"
    using alignment by (simp add: unat_gt_0)
  have "unat sz + unat alignment < 2 ^ LENGTH(64)"
    using no_overflow by simp
  then have sum: "unat (sz + alignment) = unat sz + unat alignment"
    by (simp only: unat_add_lem)
  then have "sz + alignment \<noteq> 0"
    using positive by (metis add_is_0 less_numeral_extra(3) unat_0)
  then show total: "unat (sz + alignment - 1) = unat sz + unat alignment - 1"
    using sum by (simp add: unat_minus_one)
  have "unat (sz + alignment - 1) + unat (16 :: size_t) < 2 ^ LENGTH(64)"
    using no_overflow positive unfolding total by simp
  then have "unat (sz + alignment - 1 + 16) = unat (sz + alignment - 1) + unat (16 :: size_t)"
    by (simp only: unat_add_lem)
  then show "unat (sz + alignment - 1 + 16) = unat sz + unat alignment - 1 + 16"
    using total by simp
  have "unat sz + unat (align_forward a alignment - a) < 2 ^ LENGTH(64)"
    using align_padding_unat [OF alignment, of a] no_overflow by simp
  then show "unat (sz + (align_forward a alignment - a))
               = unat sz + unat (align_forward a alignment - a)"
    by (simp only: unat_add_lem)
qed

lemma freelist_takes_plain:
  assumes alignment: "alignment \<noteq> 0"
    and no_overflow: "unat sz + unat alignment + 15 < 2 ^ 64"
  shows "freelist_takes mem sz alignment a
           \<longleftrightarrow> unat sz + unat alignment - 1 \<le> unat (node_size mem a)"
proof -
  have "0 < unat alignment"
    using alignment by (simp add: unat_gt_0)
  with align_padding_unat [OF alignment, of a] show ?thesis
    unfolding freelist_takes_def word_le_nat_alt freelist_sums_unat [OF assms]
    by auto
qed

lemma freelist_split_plain:
  fixes w sz alignment :: size_t
  assumes alignment: "alignment \<noteq> 0"
    and no_overflow: "unat sz + unat alignment + 15 < 2 ^ 64"
  shows "w > sz + alignment - 1 + 16 \<longleftrightarrow> unat sz + unat alignment - 1 + 16 < unat w"
  unfolding word_less_nat_alt freelist_sums_unat [OF assms] by simp

lemma freelist_remainder_plain:
  assumes alignment: "alignment \<noteq> 0"
    and no_overflow: "unat sz + unat alignment + 15 < 2 ^ 64"
    and fits: "unat sz + unat alignment - 1 \<le> unat w"
  shows "unat (w - (sz + (align_forward a alignment - a)))
           = unat w - (unat sz + unat (align_forward a alignment - a))"
proof -
  have "0 < unat alignment"
    using alignment by (simp add: unat_gt_0)
  with align_padding_unat [OF alignment, of a] fits
  have "unat (sz + (align_forward a alignment - a)) \<le> unat w"
    unfolding freelist_sums_unat [OF alignment no_overflow] by linarith
  then have "sz + (align_forward a alignment - a) \<le> w"
    by (simp add: word_le_nat_alt)
  then have "unat (w - (sz + (align_forward a alignment - a)))
               = unat w - unat (sz + (align_forward a alignment - a))"
    by (simp add: unat_sub)
  then show ?thesis
    unfolding freelist_sums_unat [OF alignment no_overflow] .
qed

text \<open>
  C5, as the code has it. In the freelist allocator's allocate(size, alignment), for a
  request whose alignment is not 0 and whose size + alignment - 1 + 16 is a \<^verbatim>\<open>size_t\<close>
  (the sums below are sums of numbers), the chain is searched from its head and the first block is taken whose size is
  at least size + alignment - 1; this is at least size + padding, padding being the bytes
  introduced by aligning the block's start, at most alignment - 1. A block below
  size + alignment - 1 is passed over even when it accommodates size + padding; when no
  block passes the test the call fails and changes nothing. The block taken is unlinked
  and its aligned start returned. The remainder after carving out size + padding is
  re-inserted as a new free block at the chain head exactly when the size of the block
  exceeds size + alignment - 1 + 16, 16 being the size of a free-block header: the new
  block starts at block + size + padding, holds the remainder as its size and the chain
  head left by the unlinking as its successor. The size of the block is the one its
  header holds before the call: the link of its predecessor, which the unlinking writes,
  lies apart from it.
\<close>

theorem freelist_first_fit:
  assumes alignment: "alignment \<noteq> 0"
    and no_overflow: "unat sz + unat alignment + 15 < 2 ^ 64"
  shows "(freelist_chain mem (freelist_free_list freelist) ns
            \<and> (\<forall>n \<in> set ns. unat (node_size mem n) < unat sz + unat alignment - 1)
          \<longrightarrow> freelist_allocator_alloc freelist mem sz alignment = Some (None, freelist, mem))
       \<and> (freelist_chain mem (freelist_free_list freelist) (skipped @ a # rest)
            \<and> (\<forall>n \<in> set skipped. unat (node_size mem n) < unat sz + unat alignment - 1)
            \<and> unat sz + unat alignment - 1 \<le> unat (node_size mem a)
            \<and> (skipped \<noteq> [] \<longrightarrow> apart (last skipped + 8) a)
          \<longrightarrow> unat (align_forward a alignment - a) \<le> unat alignment - 1
              \<and> unat (node_size mem a - (sz + (align_forward a alignment - a)))
                  = unat (node_size mem a) - (unat sz + unat (align_forward a alignment - a))
              \<and> freelist_allocator_alloc freelist mem sz alignment =
                  (let padding = align_forward a alignment - a;
                       (freelist1, mem1) =
                         store_link freelist mem
                           (if skipped = [] then Head_link else Next_link (last skipped))
                           (node_next mem a)
                   in if unat sz + unat alignment - 1 + 16 < unat (node_size mem a)
                      then
                        (let new_node = a + sz + padding;
                             mem2 = store64 mem1 new_node (node_size mem a - (sz + padding));
                             mem3 = store64 mem2 (new_node + 8)
                                      (ptr_to_word (freelist_free_list freelist1))
                         in Some (Some (align_forward a alignment),
                                  freelist1\<lparr>freelist_free_list := Some new_node\<rparr>, mem3))
                      else Some (Some (align_forward a alignment), freelist1, mem1)))"
proof (intro conjI impI)
  assume "freelist_chain mem (freelist_free_list freelist) ns
            \<and> (\<forall>n \<in> set ns. unat (node_size mem n) < unat sz + unat alignment - 1)"
  then show "freelist_allocator_alloc freelist mem sz alignment = Some (None, freelist, mem)"
    using freelist_alloc_none_fits [of mem freelist ns sz alignment]
    by (simp add: freelist_takes_plain [OF assms] not_le)
next
  assume taken: "freelist_chain mem (freelist_free_list freelist) (skipped @ a # rest)
            \<and> (\<forall>n \<in> set skipped. unat (node_size mem n) < unat sz + unat alignment - 1)
            \<and> unat sz + unat alignment - 1 \<le> unat (node_size mem a)
            \<and> (skipped \<noteq> [] \<longrightarrow> apart (last skipped + 8) a)"
  show "unat (align_forward a alignment - a) \<le> unat alignment - 1"
    using alignment by (rule align_padding_unat)
  show "unat (node_size mem a - (sz + (align_forward a alignment - a)))
          = unat (node_size mem a) - (unat sz + unat (align_forward a alignment - a))"
    using taken by (intro freelist_remainder_plain [OF assms]) simp
  have size_kept: "node_size
                     (snd (store_link freelist mem
                             (if skipped = [] then Head_link else Next_link (last skipped))
                             (node_next mem a))) a
                   = node_size mem a"
    using taken
    by (cases "skipped = []") (simp_all add: store_link_def node_size_def load64_store64_apart)
  have "freelist_allocator_alloc freelist mem sz alignment =
     (let padding = align_forward a alignment - a;
          (freelist1, mem1) =
            store_link freelist mem
              (if skipped = [] then Head_link else Next_link (last skipped)) (node_next mem a)
      in if node_size mem1 a > sz + alignment - 1 + 16
         then
           (let new_node = a + sz + padding;
                mem2 = store64 mem1 new_node (node_size mem1 a - (sz + padding));
                mem3 = store64 mem2 (new_node + 8) (ptr_to_word (freelist_free_list freelist1))
            in Some (Some (align_forward a alignment),
                     freelist1\<lparr>freelist_free_list := Some new_node\<rparr>, mem3))
         else Some (Some (align_forward a alignment), freelist1, mem1))"
    using taken
    by (intro freelist_alloc_takes_first [of mem freelist skipped a rest sz alignment])
      (simp_all add: freelist_takes_plain [OF assms] not_le)
  then show "freelist_allocator_alloc freelist mem sz alignment =
                  (let padding = align_forward a alignment - a;
                       (freelist1, mem1) =
                         store_link freelist mem
                           (if skipped = [] then Head_link else Next_link (last skipped))
                           (node_next mem a)
                   in if unat sz + unat alignment - 1 + 16 < unat (node_size mem a)
                      then
                        (let new_node = a + sz + padding;
                             mem2 = store64 mem1 new_node (node_size mem a - (sz + padding));
                             mem3 = store64 mem2 (new_node + 8)
                                      (ptr_to_word (freelist_free_list freelist1))
                         in Some (Some (align_forward a alignment),
                                  freelist1\<lparr>freelist_free_list := Some new_node\<rparr>, mem3))
                      else Some (Some (align_forward a alignment), freelist1, mem1))"
    unfolding Let_def case_prod_beta size_kept
      freelist_split_plain [OF assms, of "node_size mem a"] .
qed


text \<open>
  A run of the freelist allocator over 1024 bytes at \<open>0x6000\<close>: 64 bytes are allocated
  and released, so that the chain is the released block of 64 bytes followed by the block
  of 960 bytes that was split off.
\<close>

lemma freelist_scenario_first:
  "freelist_allocator_alloc
     \<lparr>freelist_buffer = 0x6000, freelist_buffer_size = 1024, freelist_free_list = Some 0x6000\<rparr>
     (store64 (store64 (\<lambda>_. 0) 0x6000 1024) 0x6008 0) 64 8
   = Some (Some 0x6000,
       \<lparr>freelist_buffer = 0x6000, freelist_buffer_size = 1024, freelist_free_list = Some 0x6040\<rparr>,
       store64 (store64 (store64 (store64 (\<lambda>_. 0) 0x6000 1024) 0x6008 0) 0x6040 960) 0x6048 0)"
  by (simp add: freelist_eval)

lemma freelist_scenario_released:
  "freelist_allocator_free
     \<lparr>freelist_buffer = 0x6000, freelist_buffer_size = 1024, freelist_free_list = Some 0x6040\<rparr>
     (store64 (store64 (store64 (store64 (\<lambda>_. 0) 0x6000 1024) 0x6008 0) 0x6040 960) 0x6048 0)
     (Some 0x6000) 64
   = (\<lparr>freelist_buffer = 0x6000, freelist_buffer_size = 1024, freelist_free_list = Some 0x6000\<rparr>,
      store64 (store64 (store64 (store64 (store64 (store64 (\<lambda>_. 0)
        0x6000 1024) 0x6008 0) 0x6040 960) 0x6048 0) 0x6000 64) 0x6008 0x6040)"
  by (simp add: freelist_eval)

lemma freelist_scenario_nodes:
  "node_size (store64 (store64 (store64 (store64 (store64 (store64 (\<lambda>_. 0)
        0x6000 1024) 0x6008 0) 0x6040 960) 0x6048 0) 0x6000 64) 0x6008 0x6040) 0x6000 = 64"
  "node_next (store64 (store64 (store64 (store64 (store64 (store64 (\<lambda>_. 0)
        0x6000 1024) 0x6008 0) 0x6040 960) 0x6048 0) 0x6000 64) 0x6008 0x6040) 0x6000
     = Some 0x6040"
  "node_size (store64 (store64 (store64 (store64 (store64 (store64 (\<lambda>_. 0)
        0x6000 1024) 0x6008 0) 0x6040 960) 0x6048 0) 0x6000 64) 0x6008 0x6040) 0x6040 = 960"
  "node_next (store64 (store64 (store64 (store64 (store64 (store64 (\<lambda>_. 0)
        0x6000 1024) 0x6008 0) 0x6040 960) 0x6048 0) 0x6000 64) 0x6008 0x6040) 0x6040
     = None"
  by (simp_all add: freelist_eval)

lemma freelist_scenario_second:
  "freelist_allocator_alloc
     \<lparr>freelist_buffer = 0x6000, freelist_buffer_size = 1024, freelist_free_list = Some 0x6000\<rparr>
     (store64 (store64 (store64 (store64 (store64 (store64 (\<lambda>_. 0)
        0x6000 1024) 0x6008 0) 0x6040 960) 0x6048 0) 0x6000 64) 0x6008 0x6040) 64 8
   = Some (Some 0x6040,
       \<lparr>freelist_buffer = 0x6000, freelist_buffer_size = 1024, freelist_free_list = Some 0x6080\<rparr>,
       store64 (store64 (store64 (store64 (store64 (store64 (store64 (store64 (store64 (\<lambda>_. 0)
        0x6000 1024) 0x6008 0) 0x6040 960) 0x6048 0) 0x6000 64) 0x6008 0x6040)
        0x6008 0) 0x6080 896) 0x6088 0x6000)"
  by (simp add: freelist_eval)


text \<open>
  On this chain a request for 4096 bytes fails; a request for 64 bytes with alignment 8
  passes over the block of 64 bytes, takes the block of 960 bytes through the link of its
  predecessor, and puts the remainder of 896 bytes at the head.
\<close>

theorem freelist_first_fit_witness:
  "(let freelist = \<lparr>freelist_buffer = 0x6000, freelist_buffer_size = 1024,
                     freelist_free_list = Some 0x6000\<rparr>;
        mem = store64 (store64 (store64 (store64 (store64 (store64 (\<lambda>_. 0)
                0x6000 1024) 0x6008 0) 0x6040 960) 0x6048 0) 0x6000 64) 0x6008 0x6040
    in freelist_chain mem (freelist_free_list freelist) [0x6000, 0x6040]
       \<and> freelist_allocator_alloc freelist mem 4096 8 = Some (None, freelist, mem)
       \<and> freelist_allocator_alloc freelist mem 64 8
           = Some (Some 0x6040, freelist\<lparr>freelist_free_list := Some 0x6080\<rparr>,
               store64 (store64 (store64 mem 0x6008 0) 0x6080 896) 0x6088 0x6000))"
proof -
  let ?freelist = "\<lparr>freelist_buffer = 0x6000, freelist_buffer_size = 1024,
                     freelist_free_list = Some 0x6000\<rparr>"
  let ?mem = "store64 (store64 (store64 (store64 (store64 (store64 (\<lambda>_. 0)
                0x6000 1024) 0x6008 0) 0x6040 960) 0x6048 0) 0x6000 64) 0x6008 0x6040"
  have chain: "freelist_chain ?mem (freelist_free_list ?freelist) [0x6000, 0x6040]"
    by (simp add: freelist_scenario_nodes)
  have aligned: "(8 :: size_t) \<noteq> 0"
    and room_large: "unat (4096 :: size_t) + unat (8 :: size_t) + 15 < 2 ^ 64"
    and room: "unat (64 :: size_t) + unat (8 :: size_t) + 15 < 2 ^ 64"
    by simp_all
  have too_large: "\<forall>n \<in> set [0x6000, 0x6040].
                     unat (node_size ?mem n) < unat (4096 :: size_t) + unat (8 :: size_t) - 1"
    by (simp add: freelist_scenario_nodes)
  have skipped: "\<forall>n \<in> set [0x6000].
                   unat (node_size ?mem n) < unat (64 :: size_t) + unat (8 :: size_t) - 1"
    by (simp add: freelist_scenario_nodes)
  have taken: "unat (64 :: size_t) + unat (8 :: size_t) - 1 \<le> unat (node_size ?mem 0x6040)"
    by (simp add: freelist_scenario_nodes)
  have headers: "[0x6000 :: addr] \<noteq> [] \<longrightarrow> apart (last [0x6000] + 8) 0x6040"
    by (simp add: apart_def)
  have "freelist_allocator_alloc ?freelist ?mem 4096 8 = Some (None, ?freelist, ?mem)"
    using freelist_first_fit [OF aligned room_large, THEN conjunct1, THEN mp, OF conjI,
        OF chain too_large] .
  moreover have "freelist_allocator_alloc ?freelist ?mem 64 8
           = Some (Some 0x6040, ?freelist\<lparr>freelist_free_list := Some 0x6080\<rparr>,
               store64 (store64 (store64 ?mem 0x6008 0) 0x6080 896) 0x6088 0x6000)"
    using freelist_first_fit
      [OF aligned room, where skipped = "[0x6000]" and a = "0x6040" and rest = "[]"
         and mem = ?mem and freelist = ?freelist, THEN conjunct2, THEN mp]
      chain skipped taken headers
    by (simp add: freelist_eval)
  ultimately show ?thesis
    using chain by (simp only: Let_def)
qed


text \<open>
  C5 as stated has a block taken whenever its size accommodates size + padding, and the
  remainder re-inserted exactly when it exceeds the size of a header. In the run above
  the released block of 64 bytes sits at the chain head, at an aligned address, and
  accommodates a request for 64 bytes with alignment 8; the call returns the block at
  \<open>0x6040\<close> instead. And on the fresh allocator a request for 1001 bytes leaves a
  remainder of 23 bytes, more than a header, that is not re-inserted: the chain is empty
  afterwards.
\<close>

theorem freelist_passes_over_fitting_block:
  "(let (freelist0, mem0) = freelist_allocator_init 0x6000 1024 (\<lambda>_. 0)
    in case freelist_allocator_alloc freelist0 mem0 64 8 of
         None \<Rightarrow> False
       | Some (p1, freelist1, mem1) \<Rightarrow>
           (let (freelist2, mem2) = freelist_allocator_free freelist1 mem1 p1 64
            in p1 = Some 0x6000 \<and> freelist_free_list freelist2 = Some 0x6000
               \<and> 64 + (align_forward 0x6000 8 - 0x6000) \<le> node_size mem2 0x6000
               \<and> map_option fst (freelist_allocator_alloc freelist2 mem2 64 8)
                   = Some (Some 0x6040)))
   \<and> (let (freelist0, mem0) = freelist_allocator_init 0x6000 1024 (\<lambda>_. 0)
      in 16 < node_size mem0 0x6000 - (1001 + (align_forward 0x6000 8 - 0x6000))
         \<and> map_option (\<lambda>(p, freelist1, mem1). (p, freelist_free_list freelist1))
              (freelist_allocator_alloc freelist0 mem0 1001 8)
             = Some (Some 0x6000, None))"
proof -
  have "freelist_allocator_alloc
     \<lparr>freelist_buffer = 0x6000, freelist_buffer_size = 1024, freelist_free_list = Some 0x6000\<rparr>
     (store64 (store64 (\<lambda>_. 0) 0x6000 1024) 0x6008 0) 1001 8
   = Some (Some 0x6000,
       \<lparr>freelist_buffer = 0x6000, freelist_buffer_size = 1024, freelist_free_list = None\<rparr>,
       store64 (store64 (\<lambda>_. 0) 0x6000 1024) 0x6008 0)"
    by (simp add: freelist_eval)
  then show ?thesis
    by (simp add: freelist_init_eval freelist_init_node freelist_scenario_first
          freelist_scenario_released freelist_scenario_nodes freelist_scenario_second
          align_forward_def)
qed


text \<open>
  Where the sums wrap around. After 8 bytes have been allocated, the free block at
  \<open>0x6008\<close> has 1016 bytes. A request for \<open>2 ^ 64 - 56\<close> bytes with alignment 64 has
  size + alignment - 1 = 7 and, with the padding of 56 bytes, size + padding = 0 in
  \<^verbatim>\<open>size_t\<close>: the block passes both tests, the call returns \<open>0x6040\<close>, and the block
  goes back to the head of the chain with all its 1016 bytes.
\<close>

lemma freelist_alloc_sum_overflow:
  "(let (freelist0, mem0) = freelist_allocator_init 0x6000 1024 (\<lambda>_. 0)
    in case freelist_allocator_alloc freelist0 mem0 8 8 of
         None \<Rightarrow> False
       | Some (p1, freelist1, mem1) \<Rightarrow>
           p1 = Some 0x6000 \<and> freelist_free_list freelist1 = Some 0x6008
           \<and> node_size mem1 0x6008 = 1016
           \<and> map_option (\<lambda>(p, freelist2, mem2).
                  (p, freelist_free_list freelist2, node_size mem2 0x6008))
                (freelist_allocator_alloc freelist1 mem1 0xFFFFFFFFFFFFFFC8 64)
               = Some (Some 0x6040, Some 0x6008, 1016))"
proof -
  have wrapped: "(18446744073709576200 :: size_t) = 0x6008"
    "(- 18446744073709550600 :: size_t) = 1016"
    by simp_all
  show ?thesis
    by (simp add: freelist_init_eval freelist_eval wrapped)
qed

section \<open>Freelist: the chain after an allocation\<close>

text \<open>
  What the writes of a successful allocation do to the chain, when the headers the
  allocator touches lie apart: the \<^verbatim>\<open>next\<close> fields of the blocks on the chain from one
  another, the link of the predecessor from the size field of the block taken, and the
  header of the new block from the links of the blocks that stay. The block taken leaves
  the chain, the blocks passed over and the blocks behind it stay in their order, and a
  remainder that is re-inserted stands at the head with the remainder as its size.
\<close>

lemma apart_sym: "apart a b \<Longrightarrow> apart b a"
  unfolding apart_unat by (auto split: if_splits)

lemma apart_next_field: "apart (a + 8) a"
  by (simp add: apart_def)

lemma node_next_not_null_address: "node_next mem a \<noteq> Some 0"
  by (simp add: node_next_def word_to_ptr_def)

lemma node_next_stored:
  "p \<noteq> Some 0 \<Longrightarrow> node_next (store64 mem (a + 8) (ptr_to_word p)) a = p"
  by (simp add: node_next_def load64_store64_same word_to_ptr_inverse)

lemma node_next_store_apart:
  "apart c (n + 8) \<Longrightarrow> node_next (store64 mem c w) n = node_next mem n"
  by (simp add: node_next_def load64_store64_apart)

lemma node_size_store_apart:
  "apart c n \<Longrightarrow> node_size (store64 mem c w) n = node_size mem n"
  by (simp add: node_size_def load64_store64_apart)

lemma freelist_chain_head: "freelist_chain mem p ns \<Longrightarrow> p \<noteq> Some 0"
  by (cases ns) auto

lemma freelist_chain_store:
  "freelist_chain mem p ns \<Longrightarrow> (\<forall>n \<in> set ns. apart c (n + 8))
   \<Longrightarrow> freelist_chain (store64 mem c w) p ns"
  by (induction ns arbitrary: p) (simp_all add: node_next_store_apart)

lemma freelist_chain_unlink:
  assumes "freelist_chain mem p (skipped @ a # rest)"
    and "skipped \<noteq> []"
    and "links_apart (skipped @ a # rest)"
  shows "freelist_chain (store64 mem (last skipped + 8) (ptr_to_word (node_next mem a))) p
           (skipped @ rest)"
  using assms
proof (induction skipped arbitrary: p)
  case Nil
  then show ?case by simp
next
  case (Cons x skipped)
  show ?case
  proof (cases "skipped = []")
    case True
    with Cons.prems have "freelist_chain mem (node_next mem a) rest"
      and "\<forall>n \<in> set rest. apart (x + 8) (n + 8)" and "p = Some x" "x \<noteq> 0"
      by simp_all
    then show ?thesis
      using True freelist_chain_store [of mem "node_next mem a" rest "x + 8"]
      by (simp add: node_next_stored node_next_not_null_address)
  next
    case False
    with Cons.prems have "apart (x + 8) (last skipped + 8)"
      by (auto simp add: last_in_set)
    then have "apart (last skipped + 8) (x + 8)"
      by (rule apart_sym)
    with Cons False show ?thesis
      by (simp add: node_next_store_apart)
  qed
qed


lemma freelist_alloc_relinks:
  assumes chain: "freelist_chain mem (freelist_free_list freelist) (skipped @ a # rest)"
    and skipped: "\<forall>n \<in> set skipped. \<not> freelist_takes mem sz alignment n"
    and taken: "freelist_takes mem sz alignment a"
    and links: "links_apart (skipped @ a # rest)"
    and size_field: "skipped \<noteq> [] \<longrightarrow> apart (last skipped + 8) a"
    and new_node: "new_node = a + sz + (align_forward a alignment - a)"
    and new_block: "new_node \<noteq> 0"
      "\<forall>n \<in> set (skipped @ rest). apart new_node (n + 8) \<and> apart (new_node + 8) (n + 8)"
  shows "\<exists>freelist' mem'.
           freelist_allocator_alloc freelist mem sz alignment
             = Some (Some (align_forward a alignment), freelist', mem')
           \<and> (if node_size mem a > sz + alignment - 1 + 16
              then freelist_chain mem' (freelist_free_list freelist') (new_node # skipped @ rest)
                   \<and> node_size mem' new_node
                       = node_size mem a - (sz + (align_forward a alignment - a))
              else freelist_chain mem' (freelist_free_list freelist') (skipped @ rest))"
proof -
  define link where "link = (if skipped = [] then Head_link else Next_link (last skipped))"
  define freelist1 where "freelist1 = fst (store_link freelist mem link (node_next mem a))"
  define mem1 where "mem1 = snd (store_link freelist mem link (node_next mem a))"
  have unlinked: "freelist_chain mem1 (freelist_free_list freelist1) (skipped @ rest)"
    and size_kept: "node_size mem1 a = node_size mem a"
  proof -
    show "freelist_chain mem1 (freelist_free_list freelist1) (skipped @ rest)"
    proof (cases "skipped = []")
      case True
      with chain show ?thesis
        by (simp add: freelist1_def mem1_def link_def store_link_def)
    next
      case False
      with freelist_chain_unlink [OF chain False links] show ?thesis
        by (simp add: freelist1_def mem1_def link_def store_link_def)
    qed
    show "node_size mem1 a = node_size mem a"
      using size_field
      by (cases "skipped = []")
        (simp_all add: mem1_def link_def store_link_def node_size_store_apart)
  qed
  have result: "freelist_allocator_alloc freelist mem sz alignment =
     (if node_size mem a > sz + alignment - 1 + 16
      then Some (Some (align_forward a alignment),
                 freelist1\<lparr>freelist_free_list := Some new_node\<rparr>,
                 store64 (store64 mem1 new_node
                            (node_size mem a - (sz + (align_forward a alignment - a))))
                   (new_node + 8) (ptr_to_word (freelist_free_list freelist1)))
      else Some (Some (align_forward a alignment), freelist1, mem1))"
    unfolding freelist_alloc_takes_first [OF chain skipped taken]
    by (simp add: Let_def case_prod_beta link_def [symmetric] freelist1_def [symmetric]
          mem1_def [symmetric] size_kept new_node)
  show ?thesis
  proof (cases "node_size mem a > sz + alignment - 1 + 16")
    case False
    with result unlinked show ?thesis
      by simp
  next
    case True
    let ?mem2 = "store64 mem1 new_node (node_size mem a - (sz + (align_forward a alignment - a)))"
    let ?mem3 = "store64 ?mem2 (new_node + 8) (ptr_to_word (freelist_free_list freelist1))"
    have "freelist_chain ?mem2 (freelist_free_list freelist1) (skipped @ rest)"
      using unlinked by (rule freelist_chain_store) (simp add: new_block(2))
    then have "freelist_chain ?mem3 (freelist_free_list freelist1) (skipped @ rest)"
      by (rule freelist_chain_store) (simp add: new_block(2))
    moreover have "node_next ?mem3 new_node = freelist_free_list freelist1"
      using freelist_chain_head [OF unlinked] by (rule node_next_stored)
    moreover have "node_size ?mem3 new_node
                     = node_size mem a - (sz + (align_forward a alignment - a))"
      by (simp add: node_size_def load64_store64_apart apart_next_field load64_store64_same)
    ultimately show ?thesis
      using True result new_block(1) by simp
  qed
qed

end
